theory Spec2Isabelle
  imports Complex_Main
begin

section \<open>Python values, errors and tensors\<close>

text \<open>
  The rollout engine of \<^verbatim>\<open>openrlhf/trainer/ppo_utils/experience_maker.py\<close> and the
  request aggregator of \<^verbatim>\<open>openrlhf/trainer/ray/vllm_engine.py\<close> are embedded here.
  Tensor entries are real numbers: the arithmetic of the model is exact, where the
  source computes in floating point. A boolean tensor holds 1 for True and 0 for False,
  as it does when the source multiplies it with a float tensor.

  Every exception the embedded code can raise is a value of \<open>error\<close>; a function that
  can raise returns \<open>error + 'a\<close>, with \<open>Inl\<close> for the raise.
\<close>

datatype error =
    KeyError string
  | RankKeyError nat
  | IndexError
  | TypeError
  | AttributeError
  | AssertionError
  | RuntimeError
  | Shape_mismatch
  | Unknown_estimator string
  | Collaborator_failure
  | Nan_values

text \<open>
  \<open>RuntimeError\<close> is what torch raises (\<^verbatim>\<open>cat\<close>, \<^verbatim>\<open>stack\<close>, \<^verbatim>\<open>reshape\<close>).
  \<open>Shape_mismatch\<close> ends a run of the model on operands whose shapes differ in an
  elementwise operation: torch would broadcast them or raise, and neither is modelled.
  \<open>Unknown_estimator\<close> is the \<^verbatim>\<open>Exception\<close> of \<^verbatim>\<open>make_experience_list\<close>.
  \<open>Collaborator_failure\<close> is any exception of an external collaborator (generation,
  scoring). \<open>Nan_values\<close> is not an exception of the source: it ends a run of the model
  where the source goes on with nan entries (a float division 0/0), which real numbers
  cannot carry.
\<close>

definition bindE :: "'e + 'a \<Rightarrow> ('a \<Rightarrow> 'e + 'b) \<Rightarrow> 'e + 'b" where
  "bindE m f = (case m of Inl e \<Rightarrow> Inl e | Inr x \<Rightarrow> f x)"

text \<open>A tensor is its shape and its entries in row-major order.\<close>

record tensor =
  shape :: "nat list"
  data :: "real list"

definition wf_tensor :: "tensor \<Rightarrow> bool" where
  "wf_tensor t = (length (data t) = prod_list (shape t))"

text \<open>Entry \<open>(b, j)\<close> of a two-dimensional tensor.\<close>

definition at2 :: "tensor \<Rightarrow> nat \<Rightarrow> nat \<Rightarrow> real" where
  "at2 t b j = data t ! (b * (shape t ! 1) + j)"

text \<open>\<^verbatim>\<open>x[:, t]\<close> on the entries of a \<open>B \<times> T\<close> tensor: one entry per row.\<close>

definition col :: "nat \<Rightarrow> nat \<Rightarrow> real list \<Rightarrow> nat \<Rightarrow> real list" where
  "col B T xs t = map (\<lambda>b. xs ! (b * T + t)) [0..<B]"

text \<open>\<^verbatim>\<open>x[:, t] = c\<close> on the entries of a \<open>B \<times> T\<close> tensor.\<close>

definition set_col :: "nat \<Rightarrow> nat \<Rightarrow> real list \<Rightarrow> nat \<Rightarrow> real list \<Rightarrow> real list" where
  "set_col B T xs t c = map (\<lambda>i. if i mod T = t then c ! (i div T) else xs ! i) [0..<B * T]"

text \<open>
  Elementwise product and sum of two tensors of one shape (\<^verbatim>\<open>action_mask * values\<close>,
  \<^verbatim>\<open>advantages + values\<close>).
\<close>

definition tmul :: "tensor \<Rightarrow> tensor \<Rightarrow> error + tensor" where
  "tmul a b =
     (if shape a = shape b
      then Inr \<lparr>shape = shape b, data = map (\<lambda>i. data a ! i * data b ! i) [0..<length (data b)]\<rparr>
      else Inl Shape_mismatch)"

definition tadd :: "tensor \<Rightarrow> tensor \<Rightarrow> error + tensor" where
  "tadd a b =
     (if shape a = shape b
      then Inr \<lparr>shape = shape b, data = map (\<lambda>i. data a ! i + data b ! i) [0..<length (data b)]\<rparr>
      else Inl Shape_mismatch)"

text \<open>
  \<^verbatim>\<open>torch.stack(cols, dim=1)\<close> of one-dimensional tensors of length \<open>B\<close>: entry
  \<open>(b, t)\<close> of the result is entry \<open>b\<close> of \<open>cols ! t\<close>. torch raises on an empty list.
\<close>

definition stack_dim1 :: "nat \<Rightarrow> real list list \<Rightarrow> error + tensor" where
  "stack_dim1 B cols =
     (if cols = [] then Inl RuntimeError
      else Inr \<lparr>shape = [B, length cols],
                data = concat (map (\<lambda>b. map (\<lambda>c. c ! b) cols) [0..<B])\<rparr>)"

text \<open>\<^verbatim>\<open>unsqueeze(0)\<close> and \<^verbatim>\<open>squeeze(0)\<close>.\<close>

definition unsqueeze0 :: "tensor \<Rightarrow> tensor" where
  "unsqueeze0 t = t\<lparr>shape := 1 # shape t\<rparr>"

definition squeeze0 :: "tensor \<Rightarrow> tensor" where
  "squeeze0 t = (case shape t of n # s \<Rightarrow> (if n = 1 then t\<lparr>shape := s\<rparr> else t) | [] \<Rightarrow> t)"

text \<open>
  The values a field of an \<^verbatim>\<open>Experience\<close> or an entry of its \<^verbatim>\<open>info\<close> can hold:
  \<^verbatim>\<open>None\<close>, a number, a string, a tensor, or a list of such values.
\<close>

datatype pyval =
    PNone
  | PInt int
  | PFloat real
  | PStr string
  | PTensor tensor
  | PList "pyval list"

section \<open>The advantage engine\<close>

subsection \<open>\<^verbatim>\<open>get_cumulative_returns\<close>\<close>

text \<open>
  The loop \<^verbatim>\<open>for t in reversed(range(response_length))\<close>: the first argument counts
  the timesteps still to visit, so \<open>Suc t\<close> visits timestep \<open>t\<close>.
\<close>

fun cumulative_loop ::
  "real \<Rightarrow> nat \<Rightarrow> nat \<Rightarrow> real list \<Rightarrow> nat \<Rightarrow> real list \<Rightarrow> real list \<Rightarrow> real list" where
  "cumulative_loop gamma B T rewards 0 cumulative_return returns = returns"
| "cumulative_loop gamma B T rewards (Suc t) cumulative_return returns =
     (let cumulative_return' =
            map (\<lambda>b. col B T rewards t ! b + gamma * cumulative_return ! b) [0..<B]
      in cumulative_loop gamma B T rewards t cumulative_return'
           (set_col B T returns t cumulative_return'))"

text \<open>
  The batched branch. \<^verbatim>\<open>rewards.size(1)\<close> needs two dimensions; the documented shape is
  \<open>(batch_size, response_size)\<close>, and tensors of more dimensions are not modelled.
\<close>

definition get_cumulative_returns_batched ::
  "tensor \<Rightarrow> tensor option \<Rightarrow> real \<Rightarrow> error + tensor" where
  "get_cumulative_returns_batched rewards action_mask gamma =
     (case shape rewards of
        [B, response_length] \<Rightarrow>
          (let returns = replicate (B * response_length) 0;
               cumulative_return = replicate B 0
           in bindE (case action_mask of None \<Rightarrow> Inr rewards | Some m \<Rightarrow> tmul m rewards)
                (\<lambda>rewards'. Inr \<lparr>shape = [B, response_length],
                    data = cumulative_loop gamma B response_length (data rewards')
                             response_length cumulative_return returns\<rparr>))
      | _ \<Rightarrow> Inl Shape_mismatch)"

text \<open>
  The packed branch calls the batched one on every sequence of the list, with the same
  \<^verbatim>\<open>action_mask\<close>. \<^verbatim>\<open>r.unsqueeze(0)\<close> needs a tensor.
\<close>

fun get_cumulative_returns_packed ::
  "pyval list \<Rightarrow> tensor option \<Rightarrow> real \<Rightarrow> error + pyval list" where
  "get_cumulative_returns_packed [] action_mask gamma = Inr []"
| "get_cumulative_returns_packed (PTensor r # rs) action_mask gamma =
     (case get_cumulative_returns_batched (unsqueeze0 r) action_mask gamma of
        Inl e \<Rightarrow> Inl e
      | Inr ret \<Rightarrow>
          (case get_cumulative_returns_packed rs action_mask gamma of
             Inl e \<Rightarrow> Inl e
           | Inr rets \<Rightarrow> Inr (PTensor (squeeze0 ret) # rets)))"
| "get_cumulative_returns_packed (_ # rs) action_mask gamma = Inl AttributeError"

definition get_cumulative_returns :: "pyval \<Rightarrow> tensor option \<Rightarrow> real \<Rightarrow> error + pyval" where
  "get_cumulative_returns rewards action_mask gamma =
     (case rewards of
        PList rs \<Rightarrow>
          (case get_cumulative_returns_packed rs action_mask gamma of
             Inl e \<Rightarrow> Inl e | Inr rets \<Rightarrow> Inr (PList rets))
      | PTensor r \<Rightarrow>
          (case get_cumulative_returns_batched r action_mask gamma of
             Inl e \<Rightarrow> Inl e | Inr ret \<Rightarrow> Inr (PTensor ret))
      | _ \<Rightarrow> Inl AttributeError)"

subsection \<open>\<^verbatim>\<open>get_advantages_and_returns\<close>\<close>

text \<open>
  \<^verbatim>\<open>lastgaelam\<close> starts as the number 0 and is a tensor of \<open>B\<close> entries from the first
  round on; \<^verbatim>\<open>nextvalues\<close> is the number 0.0 at the last timestep. Both are held as
  \<open>B\<close> zeros, which is what broadcasting makes of them.
\<close>

fun gae_loop ::
  "real \<Rightarrow> real \<Rightarrow> nat \<Rightarrow> nat \<Rightarrow> real list \<Rightarrow> real list \<Rightarrow> nat \<Rightarrow> real list \<Rightarrow>
   real list list \<Rightarrow> real list list" where
  "gae_loop gamma lambd B T values rewards 0 lastgaelam advantages_reversed =
     advantages_reversed"
| "gae_loop gamma lambd B T values rewards (Suc t) lastgaelam advantages_reversed =
     (let nextvalues = (if t < T - 1 then col B T values (t + 1) else replicate B 0);
          delta = map (\<lambda>b. col B T rewards t ! b + gamma * nextvalues ! b - col B T values t ! b)
                    [0..<B];
          lastgaelam' = map (\<lambda>b. delta ! b + gamma * lambd * lastgaelam ! b) [0..<B]
      in gae_loop gamma lambd B T values rewards t lastgaelam'
           (advantages_reversed @ [lastgaelam']))"

definition get_advantages_and_returns_batched ::
  "tensor \<Rightarrow> tensor \<Rightarrow> tensor option \<Rightarrow> real \<Rightarrow> real \<Rightarrow> error + (tensor \<times> tensor)" where
  "get_advantages_and_returns_batched values rewards action_mask gamma lambd =
     (case shape rewards of
        [B, response_length] \<Rightarrow>
          (if shape values \<noteq> shape rewards then Inl Shape_mismatch
           else
             bindE (case action_mask of None \<Rightarrow> Inr values | Some m \<Rightarrow> tmul m values)
               (\<lambda>values'.
             bindE (case action_mask of None \<Rightarrow> Inr rewards | Some m \<Rightarrow> tmul m rewards)
               (\<lambda>rewards'.
             bindE (stack_dim1 B
                      (rev (gae_loop gamma lambd B response_length (data values')
                              (data rewards') response_length (replicate B 0) [])))
               (\<lambda>advantages.
             bindE (tadd advantages values')
               (\<lambda>returns. Inr (advantages, returns))))))
      | _ \<Rightarrow> Inl Shape_mismatch)"

text \<open>
  The packed branch walks \<^verbatim>\<open>zip(values, rewards)\<close>; the argument is the zipped list.
\<close>

fun get_advantages_and_returns_packed ::
  "(pyval \<times> pyval) list \<Rightarrow> tensor option \<Rightarrow> real \<Rightarrow> real \<Rightarrow>
   error + (pyval list \<times> pyval list)" where
  "get_advantages_and_returns_packed [] action_mask gamma lambd = Inr ([], [])"
| "get_advantages_and_returns_packed ((PTensor v, PTensor r) # vrs) action_mask gamma lambd =
     (case get_advantages_and_returns_batched (unsqueeze0 v) (unsqueeze0 r) action_mask
             gamma lambd of
        Inl e \<Rightarrow> Inl e
      | Inr (adv, ret) \<Rightarrow>
          (case get_advantages_and_returns_packed vrs action_mask gamma lambd of
             Inl e \<Rightarrow> Inl e
           | Inr (advantages, returns) \<Rightarrow>
               Inr (PTensor (squeeze0 adv) # advantages, PTensor (squeeze0 ret) # returns)))"
| "get_advantages_and_returns_packed (_ # vrs) action_mask gamma lambd = Inl AttributeError"

text \<open>
  \<^verbatim>\<open>zip(values, rewards)\<close> needs two lists here (a tensor in the place of the list of
  rewards is not modelled). In the batched branch the source reads
  \<^verbatim>\<open>rewards.size(1)\<close> first: anything but a tensor has no such attribute; values
  that are no tensor then fail in the arithmetic.
\<close>

definition get_advantages_and_returns ::
  "pyval \<Rightarrow> pyval \<Rightarrow> tensor option \<Rightarrow> real \<Rightarrow> real \<Rightarrow> error + (pyval \<times> pyval)" where
  "get_advantages_and_returns values rewards action_mask gamma lambd =
     (case values of
        PList vs \<Rightarrow>
          (case rewards of
             PList rs \<Rightarrow>
               (case get_advantages_and_returns_packed (zip vs rs) action_mask gamma lambd of
                  Inl e \<Rightarrow> Inl e
                | Inr (advantages, returns) \<Rightarrow> Inr (PList advantages, PList returns))
           | _ \<Rightarrow> Inl TypeError)
      | _ \<Rightarrow>
          (case rewards of
             PTensor r \<Rightarrow>
               (case values of
                  PTensor v \<Rightarrow>
                    (case get_advantages_and_returns_batched v r action_mask gamma lambd of
                       Inl e \<Rightarrow> Inl e
                     | Inr (advantages, returns) \<Rightarrow> Inr (PTensor advantages, PTensor returns))
                | _ \<Rightarrow> Inl TypeError)
           | _ \<Rightarrow> Inl AttributeError))"

text \<open>
  Entry \<open>(b, j)\<close> of \<^verbatim>\<open>action_mask * x\<close>, or of \<open>x\<close> itself when there is no mask:
  what both estimators compute on after \<^verbatim>\<open>if action_mask is not None\<close>.
\<close>

definition masked_at :: "tensor option \<Rightarrow> tensor \<Rightarrow> nat \<Rightarrow> nat \<Rightarrow> real" where
  "masked_at action_mask x b j =
     (case action_mask of None \<Rightarrow> at2 x b j | Some m \<Rightarrow> at2 m b j * at2 x b j)"

section \<open>The request aggregator\<close>

text \<open>
  A Python \<^verbatim>\<open>dict\<close> keeps its keys in the order of their first insertion: it is an
  association list with distinct keys. \<open>dict_set\<close> is \<^verbatim>\<open>d[k] = v\<close> (an existing key keeps
  its place), \<open>dict_del\<close> removes a key.
\<close>

fun dict_set :: "'k \<Rightarrow> 'v \<Rightarrow> ('k \<times> 'v) list \<Rightarrow> ('k \<times> 'v) list" where
  "dict_set k v [] = [(k, v)]"
| "dict_set k v ((k', v') # d) =
     (if k' = k then (k, v) # d else (k', v') # dict_set k v d)"

definition dict_del :: "'k \<Rightarrow> ('k \<times> 'v) list \<Rightarrow> ('k \<times> 'v) list" where
  "dict_del k d = filter (\<lambda>(k', v). k' \<noteq> k) d"

text \<open>
  The state of an \<^verbatim>\<open>LLMRayActor\<close> that the aggregation uses. \<open>responses\<close> is \<open>None\<close>
  until the first dispatch: \<^verbatim>\<open>__init__\<close> does not set the attribute. \<open>generate_calls\<close>
  is not a field of the source: it records every call of \<^verbatim>\<open>self.llm.generate\<close>, with
  its sampling parameters and its prompts, in the order of the calls.
\<close>

record ('sp, 'p, 'r) llm_ray_actor =
  num_actors :: nat
  actor_counter :: nat
  requests :: "(nat \<times> 'p list) list"
  responses :: "(nat \<times> 'r list) list option"
  generate_calls :: "('sp \<times> 'p list) list"

definition init_actor :: "nat \<Rightarrow> ('sp, 'p, 'r) llm_ray_actor" where
  "init_actor n =
     \<lparr>num_actors = n, actor_counter = 0, requests = [], responses = None, generate_calls = []\<rparr>"

text \<open>
  The loop \<^verbatim>\<open>for actor_rank, num in num_requests\<close> that cuts the responses up:
  \<^verbatim>\<open>responses[offset : offset + num]\<close> is \<open>take num (drop offset responses)\<close>.
\<close>

fun slice_responses ::
  "'r list \<Rightarrow> nat \<Rightarrow> (nat \<times> nat) list \<Rightarrow> (nat \<times> 'r list) list \<Rightarrow> (nat \<times> 'r list) list" where
  "slice_responses rs offset [] acc = acc"
| "slice_responses rs offset ((actor_rank, num) # num_requests) acc =
     slice_responses rs (offset + num) num_requests
       (dict_set actor_rank (take num (drop offset rs)) acc)"

text \<open>
  \<^verbatim>\<open>add_requests\<close>. The engine \<^verbatim>\<open>self.llm.generate\<close> is the parameter \<open>generate\<close>;
  it answers \<open>None\<close> when it raises. A Ray actor serves one call at a time, so a call is
  one step on the state.
\<close>

definition add_requests ::
  "('sp \<Rightarrow> 'p list \<Rightarrow> 'r list option) \<Rightarrow> nat \<Rightarrow> 'sp \<Rightarrow> 'p list \<Rightarrow>
   ('sp, 'p, 'r) llm_ray_actor \<Rightarrow> error + ('sp, 'p, 'r) llm_ray_actor" where
  "add_requests generate actor_rank sampling_params prompt_token_ids s =
     (let s1 = s\<lparr>requests := dict_set actor_rank prompt_token_ids (requests s),
                 actor_counter := actor_counter s + 1\<rparr>
      in if actor_counter s1 = num_actors s1 then
           (if length (requests s1) \<noteq> num_actors s1 then Inl AssertionError
            else
              let num_requests = map (\<lambda>(rank, request). (rank, length request)) (requests s1);
                  reqs = concat (map snd (requests s1))
              in case (if length reqs > 0 then generate sampling_params reqs else Some []) of
                   None \<Rightarrow> Inl Collaborator_failure
                 | Some rs \<Rightarrow>
                     Inr (s1\<lparr>responses := Some (slice_responses rs 0 num_requests []),
                             actor_counter := 0,
                             requests := [],
                             generate_calls :=
                               generate_calls s1 @
                                 (if length reqs > 0 then [(sampling_params, reqs)] else [])\<rparr>))
         else Inr s1)"

text \<open>\<^verbatim>\<open>get_responses\<close>: \<^verbatim>\<open>self.responses.pop(actor_rank)\<close>.\<close>

definition get_responses ::
  "nat \<Rightarrow> ('sp, 'p, 'r) llm_ray_actor \<Rightarrow> error + ('r list \<times> ('sp, 'p, 'r) llm_ray_actor)" where
  "get_responses actor_rank s =
     (case responses s of
        None \<Rightarrow> Inl AttributeError
      | Some d \<Rightarrow>
          (case map_of d actor_rank of
             None \<Rightarrow> Inl (RankKeyError actor_rank)
           | Some rs \<Rightarrow> Inr (rs, s\<lparr>responses := Some (dict_del actor_rank d)\<rparr>)))"

text \<open>
  The producers' calls \<^verbatim>\<open>llm.add_requests.remote(rank, sampling_params=...,
  prompt_token_ids=...)\<close> as the actor serves them, one after the other in the order of
  their arrival; the first raise ends the run.
\<close>

fun register_all ::
  "('sp \<Rightarrow> 'p list \<Rightarrow> 'r list option) \<Rightarrow> (nat \<times> 'sp \<times> 'p list) list \<Rightarrow>
   ('sp, 'p, 'r) llm_ray_actor \<Rightarrow> error + ('sp, 'p, 'r) llm_ray_actor" where
  "register_all generate [] s = Inr s"
| "register_all generate ((actor_rank, sampling_params, prompt_token_ids) # regs) s =
     (case add_requests generate actor_rank sampling_params prompt_token_ids s of
        Inl e \<Rightarrow> Inl e
      | Inr s' \<Rightarrow> register_all generate regs s')"

section \<open>Experience and its merge\<close>

text \<open>
  \<^verbatim>\<open>torch.cat((x, y), dim=0)\<close>. A zero-dimensional tensor cannot be concatenated; a
  one-dimensional tensor of no entries is skipped; otherwise the two shapes must agree
  past the first dimension, and the entries of \<open>y\<close> follow those of \<open>x\<close>.
\<close>

definition cat0 :: "tensor \<Rightarrow> tensor \<Rightarrow> error + tensor" where
  "cat0 x y =
     (if shape x = [] \<or> shape y = [] then Inl RuntimeError
      else if shape x = [0] then Inr y
      else if shape y = [0] then Inr x
      else if tl (shape x) = tl (shape y)
      then Inr \<lparr>shape = (hd (shape x) + hd (shape y)) # tl (shape x), data = data x @ data y\<rparr>
      else Inl RuntimeError)"

text \<open>\<^verbatim>\<open>t.size(0)\<close>, the batch size of a tensor of at least one dimension.\<close>

definition batch_size :: "tensor \<Rightarrow> nat" where
  "batch_size t = (case shape t of [] \<Rightarrow> 0 | n # s \<Rightarrow> n)"

text \<open>
  Python's \<^verbatim>\<open>x + y\<close> on the values of the model: numbers add, strings and lists
  concatenate, a number and a tensor add entry by entry, two tensors add entry by entry
  when their shapes are equal. Every other pair raises TypeError.
\<close>

fun py_add :: "pyval \<Rightarrow> pyval \<Rightarrow> error + pyval" where
  "py_add (PInt a) (PInt b) = Inr (PInt (a + b))"
| "py_add (PInt a) (PFloat b) = Inr (PFloat (of_int a + b))"
| "py_add (PFloat a) (PInt b) = Inr (PFloat (a + of_int b))"
| "py_add (PFloat a) (PFloat b) = Inr (PFloat (a + b))"
| "py_add (PInt a) (PTensor t) = Inr (PTensor (t\<lparr>data := map (\<lambda>v. of_int a + v) (data t)\<rparr>))"
| "py_add (PFloat a) (PTensor t) = Inr (PTensor (t\<lparr>data := map (\<lambda>v. a + v) (data t)\<rparr>))"
| "py_add (PTensor t) (PInt b) = Inr (PTensor (t\<lparr>data := map (\<lambda>v. v + of_int b) (data t)\<rparr>))"
| "py_add (PTensor t) (PFloat b) = Inr (PTensor (t\<lparr>data := map (\<lambda>v. v + b) (data t)\<rparr>))"
| "py_add (PTensor s) (PTensor t) =
     (case tadd s t of Inl e \<Rightarrow> Inl e | Inr u \<Rightarrow> Inr (PTensor u))"
| "py_add (PStr a) (PStr b) = Inr (PStr (a @ b))"
| "py_add (PList a) (PList b) = Inr (PList (a @ b))"
| "py_add _ _ = Inl TypeError"

text \<open>\<^verbatim>\<open>conditional_cat\<close>. \<^verbatim>\<open>torch.cat\<close> raises TypeError on anything but tensors.\<close>

definition conditional_cat :: "pyval \<Rightarrow> pyval \<Rightarrow> error + pyval" where
  "conditional_cat attr1 attr2 =
     (if attr1 \<noteq> PNone \<and> attr2 \<noteq> PNone then
        (case attr1 of
           PTensor x \<Rightarrow>
             (case attr2 of
                PTensor y \<Rightarrow> (case cat0 x y of Inl e \<Rightarrow> Inl e | Inr t \<Rightarrow> Inr (PTensor t))
              | _ \<Rightarrow> Inl TypeError)
         | _ \<Rightarrow> py_add attr1 attr2)
      else Inr PNone)"

text \<open>
  The dataclass \<^verbatim>\<open>Experience\<close>. A field holds a tensor, a list of tensors (packed
  samples) or \<^verbatim>\<open>None\<close>. \<open>info\<close> is a dict from names to values; every \<^verbatim>\<open>Experience\<close>
  the repository builds has one, so \<^verbatim>\<open>None\<close> in its place is not modelled.
  \<open>visual_inputs\<close> is a dict or \<^verbatim>\<open>None\<close>.
\<close>

record experience =
  sequences :: pyval
  action_log_probs :: pyval
  "values" :: pyval
  returns :: pyval
  advantages :: pyval
  attention_mask :: pyval
  action_mask :: pyval
  info :: "(string \<times> pyval) list"
  kl :: pyval
  ref_log_probs :: pyval
  visual_inputs :: "(string \<times> pyval) list option"

text \<open>The fields that \<^verbatim>\<open>__add__\<close> passes through \<^verbatim>\<open>conditional_cat\<close> one by one.\<close>

definition tensor_fields :: "(experience \<Rightarrow> pyval) list" where
  "tensor_fields =
     [sequences, action_log_probs, values, returns, advantages, attention_mask, action_mask,
      kl, ref_log_probs]"

text \<open>
  The loop \<^verbatim>\<open>for k in self.info.keys(): info[k] = conditional_cat(self.info[k],
  other.info[k])\<close>, also run on \<^verbatim>\<open>visual_inputs\<close>: \<open>a\<close> is the dict of \<^verbatim>\<open>self\<close>, \<open>b\<close>
  that of \<^verbatim>\<open>other\<close>, \<open>acc\<close> the dict being filled.
\<close>

fun cat_dict_loop ::
  "string list \<Rightarrow> (string \<times> pyval) list \<Rightarrow> (string \<times> pyval) list \<Rightarrow>
   (string \<times> pyval) list \<Rightarrow> error + (string \<times> pyval) list" where
  "cat_dict_loop [] a b acc = Inr acc"
| "cat_dict_loop (k # ks) a b acc =
     (case map_of a k of
        None \<Rightarrow> Inl (KeyError k)
      | Some x \<Rightarrow>
          (case map_of b k of
             None \<Rightarrow> Inl (KeyError k)
           | Some y \<Rightarrow>
               (case conditional_cat x y of
                  Inl e \<Rightarrow> Inl e
                | Inr v \<Rightarrow> cat_dict_loop ks a b (dict_set k v acc))))"

text \<open>
  \<^verbatim>\<open>Experience.__add__\<close> on two experiences. \<^verbatim>\<open>self.visual_inputs.keys()\<close> raises
  AttributeError on \<^verbatim>\<open>None\<close>; \<^verbatim>\<open>other.visual_inputs[k]\<close> raises TypeError on \<^verbatim>\<open>None\<close>,
  when the loop has a key to visit. The arguments of the constructor are evaluated in
  the order in which they are written.
\<close>

definition experience_add :: "experience \<Rightarrow> experience \<Rightarrow> error + experience" where
  "experience_add self other =
     bindE (cat_dict_loop (map fst (info self)) (info self) (info other) []) (\<lambda>info'.
     bindE (case visual_inputs self of
              None \<Rightarrow> Inl AttributeError
            | Some vs \<Rightarrow>
                (case visual_inputs other of
                   None \<Rightarrow> (if vs = [] then Inr [] else Inl TypeError)
                 | Some vo \<Rightarrow> cat_dict_loop (map fst vs) vs vo [])) (\<lambda>visual_inputs'.
     bindE (conditional_cat (sequences self) (sequences other)) (\<lambda>sequences'.
     bindE (conditional_cat (action_log_probs self) (action_log_probs other)) (\<lambda>action_log_probs'.
     bindE (conditional_cat (values self) (values other)) (\<lambda>values'.
     bindE (conditional_cat (returns self) (returns other)) (\<lambda>returns'.
     bindE (conditional_cat (advantages self) (advantages other)) (\<lambda>advantages'.
     bindE (conditional_cat (attention_mask self) (attention_mask other)) (\<lambda>attention_mask'.
     bindE (conditional_cat (action_mask self) (action_mask other)) (\<lambda>action_mask'.
     bindE (conditional_cat (kl self) (kl other)) (\<lambda>kl'.
     bindE (conditional_cat (ref_log_probs self) (ref_log_probs other)) (\<lambda>ref_log_probs'.
       Inr \<lparr>sequences = sequences', action_log_probs = action_log_probs', values = values',
            returns = returns', advantages = advantages', attention_mask = attention_mask',
            action_mask = action_mask', info = info', kl = kl', ref_log_probs = ref_log_probs',
            visual_inputs = Some visual_inputs'\<rparr>)))))))))))"

text \<open>
  What the left operand of \<^verbatim>\<open>other + self\<close> can be in the repository: the integer that
  \<^verbatim>\<open>sum\<close> starts from, or an \<^verbatim>\<open>Experience\<close>.
\<close>

datatype operand = OInt int | OExp experience

text \<open>
  \<^verbatim>\<open>Experience.__radd__\<close>. An \<^verbatim>\<open>Experience\<close> is not equal to 0. For a number other than
  0, \<^verbatim>\<open>__add__\<close> answers NotImplemented and Python raises TypeError.
\<close>

definition experience_radd :: "experience \<Rightarrow> operand \<Rightarrow> error + experience" where
  "experience_radd self other =
     (case other of
        OInt i \<Rightarrow> (if i = 0 then Inr self else Inl TypeError)
      | OExp e \<Rightarrow> experience_add self e)"

text \<open>
  The builtin \<^verbatim>\<open>sum(experiences)\<close>: the accumulator starts as 0; \<^verbatim>\<open>acc + e\<close> is
  \<^verbatim>\<open>e.__radd__(acc)\<close> while the accumulator is the integer, \<^verbatim>\<open>acc.__add__(e)\<close> afterwards.
\<close>

fun sum_loop :: "operand \<Rightarrow> experience list \<Rightarrow> error + operand" where
  "sum_loop acc [] = Inr acc"
| "sum_loop acc (e # es) =
     (case (case acc of OInt i \<Rightarrow> experience_radd e (OInt i) | OExp a \<Rightarrow> experience_add a e) of
        Inl err \<Rightarrow> Inl err
      | Inr r \<Rightarrow> sum_loop (OExp r) es)"

definition py_sum :: "experience list \<Rightarrow> error + operand" where
  "py_sum es = sum_loop (OInt 0) es"

text \<open>
  Two values that \<^verbatim>\<open>conditional_cat\<close> can combine: one of them is \<^verbatim>\<open>None\<close>, or they are
  tensors that \<^verbatim>\<open>torch.cat\<close> accepts, or numbers, strings or lists.
\<close>

fun compatible :: "pyval \<Rightarrow> pyval \<Rightarrow> bool" where
  "compatible PNone y = True"
| "compatible x PNone = True"
| "compatible (PTensor s) (PTensor t) =
     (shape s \<noteq> [] \<and> shape t \<noteq> [] \<and>
      (shape s = [0] \<or> shape t = [0] \<or> tl (shape s) = tl (shape t)))"
| "compatible (PInt a) (PInt b) = True"
| "compatible (PInt a) (PFloat b) = True"
| "compatible (PFloat a) (PInt b) = True"
| "compatible (PFloat a) (PFloat b) = True"
| "compatible (PStr a) (PStr b) = True"
| "compatible (PList a) (PList b) = True"
| "compatible x y = False"

text \<open>
  Two dicts that the loop of \<^verbatim>\<open>__add__\<close> can combine: every key of the first is a key of
  the second, with compatible values. Two experiences that \<^verbatim>\<open>__add__\<close> can combine:
  their fields and dicts are compatible (the spec's "identical info key sets and
  compatible shapes"), and \<^verbatim>\<open>visual_inputs\<close> is a dict on the left.
\<close>

definition dict_compatible :: "(string \<times> pyval) list \<Rightarrow> (string \<times> pyval) list \<Rightarrow> bool" where
  "dict_compatible a b =
     list_all (\<lambda>k. case map_of a k of
                      None \<Rightarrow> False
                    | Some x \<Rightarrow> (case map_of b k of None \<Rightarrow> False | Some y \<Rightarrow> compatible x y))
       (map fst a)"

definition mergeable :: "experience \<Rightarrow> experience \<Rightarrow> bool" where
  "mergeable a b =
     (list_all (\<lambda>f. compatible (f a) (f b)) tensor_fields \<and>
      dict_compatible (info a) (info b) \<and>
      (case visual_inputs a of
         None \<Rightarrow> False
       | Some va \<Rightarrow>
           (case visual_inputs b of None \<Rightarrow> va = [] | Some vb \<Rightarrow> dict_compatible va vb)))"

section \<open>Reward shaping\<close>

text \<open>
  The settings that \<^verbatim>\<open>make_experience_list\<close> and \<^verbatim>\<open>process_experiences\<close> read from
  \<^verbatim>\<open>self.strategy.args\<close> and from the experience maker itself. \<open>ring_attn_rank\<close> is \<open>None\<close>
  when there is no ring attention group.
\<close>

record config =
  advantage_estimator :: string
  n_samples_per_prompt :: nat
  vllm_enable_sleep :: bool
  packing_samples :: bool
  ring_attn_rank :: "nat option"

text \<open>A list comprehension whose body can raise: the first raise ends it.\<close>

fun mapE :: "('a \<Rightarrow> 'e + 'b) \<Rightarrow> 'a list \<Rightarrow> 'e + 'b list" where
  "mapE f [] = Inr []"
| "mapE f (x # xs) =
     (case f x of
        Inl e \<Rightarrow> Inl e
      | Inr y \<Rightarrow> (case mapE f xs of Inl e \<Rightarrow> Inl e | Inr ys \<Rightarrow> Inr (y # ys)))"

text \<open>\<^verbatim>\<open>experience.info[k]\<close>.\<close>

definition info_get :: "experience \<Rightarrow> string \<Rightarrow> error + pyval" where
  "info_get e k = (case map_of (info e) k of None \<Rightarrow> Inl (KeyError k) | Some v \<Rightarrow> Inr v)"

text \<open>A value in a place where torch takes nothing but a tensor.\<close>

definition as_tensor :: "pyval \<Rightarrow> error + tensor" where
  "as_tensor v = (case v of PTensor t \<Rightarrow> Inr t | _ \<Rightarrow> Inl TypeError)"

text \<open>\<^verbatim>\<open>torch.cat(ts)\<close> on a list: the list must not be empty.\<close>

fun cat_list :: "tensor list \<Rightarrow> error + tensor" where
  "cat_list [] = Inl RuntimeError"
| "cat_list [t] = (if shape t = [] then Inl RuntimeError else Inr t)"
| "cat_list (t # u # ts) = (case cat0 t u of Inl e \<Rightarrow> Inl e | Inr v \<Rightarrow> cat_list (v # ts))"

text \<open>\<^verbatim>\<open>(t == 1).float().reshape(-1)\<close>.\<close>

definition eq1_flat :: "tensor \<Rightarrow> tensor" where
  "eq1_flat t = \<lparr>shape = [length (data t)], data = map (\<lambda>v. if v = 1 then 1 else 0) (data t)\<rparr>"

text \<open>
  \<^verbatim>\<open>t.reshape(-1, n)\<close>: torch raises unless \<open>n\<close> is positive and divides the number of
  entries.
\<close>

definition reshape_rows :: "nat \<Rightarrow> tensor \<Rightarrow> error + tensor" where
  "reshape_rows n t =
     (if n = 0 \<or> length (data t) mod n \<noteq> 0 then Inl RuntimeError
      else Inr \<lparr>shape = [length (data t) div n, n], data = data t\<rparr>)"

text \<open>
  On the entries \<open>xs\<close> of a tensor with rows of length \<open>n\<close>: \<^verbatim>\<open>x.sum(-1, keepdim=True)\<close>,
  then the leave-one-out baseline \<^verbatim>\<open>(rewards.sum(-1, keepdim=True) - rewards) /
  (n_samples_per_prompt - 1)\<close> and \<^verbatim>\<open>rewards - baseline\<close>. Entry \<open>m\<close> lies in row
  \<open>m div n\<close>, which is where broadcasting takes its row sum from.
\<close>

definition row_sums :: "nat \<Rightarrow> real list \<Rightarrow> real list" where
  "row_sums n xs = map (\<lambda>i. sum_list (take n (drop (i * n) xs))) [0..<length xs div n]"

definition rloo_baseline :: "nat \<Rightarrow> real list \<Rightarrow> real list" where
  "rloo_baseline n xs =
     map (\<lambda>m. (row_sums n xs ! (m div n) - xs ! m) / (real n - 1)) [0..<length xs]"

definition rloo_shaped :: "nat \<Rightarrow> real list \<Rightarrow> real list" where
  "rloo_shaped n xs = map (\<lambda>m. xs ! m - rloo_baseline n xs ! m) [0..<length xs]"

text \<open>
  \<^verbatim>\<open>x.chunk(k)\<close> on a one-dimensional tensor with entries \<open>xs\<close>: pieces of
  \<open>\<lceil>length xs / k\<rceil>\<close> entries, the last one shorter when the length is no multiple; \<open>k\<close>
  empty pieces when there is no entry at all.
\<close>

definition chunk :: "nat \<Rightarrow> real list \<Rightarrow> error + tensor list" where
  "chunk k xs =
     (if k = 0 then Inl RuntimeError
      else
        let split_size = (length xs + k - 1) div k
        in if split_size = 0 then Inr (replicate k \<lparr>shape = [0], data = []\<rparr>)
           else Inr (map (\<lambda>i. \<lparr>shape = [length (take split_size (drop (i * split_size) xs))],
                               data = take split_size (drop (i * split_size) xs)\<rparr>)
                       [0..<(length xs + split_size - 1) div split_size]))"

text \<open>
  \<^verbatim>\<open>process_experiences\<close>. In the \<^verbatim>\<open>rloo\<close> branch, a group size of 1 divides 0 by 0 in
  every entry: the source goes on with nan, the model ends with \<open>Nan_values\<close>. In the
  \<^verbatim>\<open>group_norm\<close> branch the source evaluates \<^verbatim>\<open>sum(experiences)\<close> twice, to the same
  value; its result is the integer 0 on an empty list, which has no \<^verbatim>\<open>info\<close>.
\<close>

definition process_experiences ::
  "config \<Rightarrow> experience list \<Rightarrow> error + (experience list \<times> pyval list)" where
  "process_experiences args experiences =
     (if advantage_estimator args = ''rloo'' then
        bindE (mapE (\<lambda>e. info_get e ''reward'') experiences) (\<lambda>rs.
        bindE (mapE as_tensor rs) (\<lambda>ts.
        bindE (cat_list ts) (\<lambda>rewards.
        let experiences' =
              map (\<lambda>(e, t). e\<lparr>info := dict_set ''acc_info'' (PTensor (eq1_flat t)) (info e)\<rparr>)
                (zip experiences ts)
        in
        bindE (reshape_rows (n_samples_per_prompt args) rewards) (\<lambda>rewards.
        if n_samples_per_prompt args = 1 then Inl Nan_values
        else
          bindE (chunk (length experiences')
                   (rloo_shaped (n_samples_per_prompt args) (data rewards))) (\<lambda>chunks.
          Inr (experiences', map PTensor chunks))))))
      else if advantage_estimator args = ''group_norm'' then
        (case py_sum experiences of
           Inl e \<Rightarrow> Inl e
         | Inr (OInt i) \<Rightarrow> Inl AttributeError
         | Inr (OExp merged) \<Rightarrow>
             bindE (info_get merged ''reward'') (\<lambda>r. Inr ([merged], [r])))
      else
        bindE (mapE (\<lambda>e. info_get e ''reward'') experiences) (\<lambda>rs. Inr (experiences, rs)))"

section \<open>The rollout driver\<close>

subsection \<open>Group normalisation\<close>

text \<open>
  On the entries \<open>xs\<close> of a reward tensor with \<open>k\<close> components per sample:
  \<^verbatim>\<open>reward[:, :, c]\<close>, flattened to one entry per sample.
\<close>

definition component :: "nat \<Rightarrow> nat \<Rightarrow> real list \<Rightarrow> real list" where
  "component k c xs = map (\<lambda>m. xs ! (m * k + c)) [0..<length xs div k]"

text \<open>
  On the entries \<open>xs\<close> of a tensor with rows of length \<open>n\<close>: \<^verbatim>\<open>x.mean(1, keepdim=True)\<close>,
  \<^verbatim>\<open>x.std(1, keepdim=True)\<close> (torch's default, with \<open>n - 1\<close> in the denominator) and
  \<^verbatim>\<open>(reward - mean) / (std + 1e-8)\<close>.
\<close>

definition row_means :: "nat \<Rightarrow> real list \<Rightarrow> real list" where
  "row_means n xs = map (\<lambda>i. sum_list (take n (drop (i * n) xs)) / real n) [0..<length xs div n]"

definition row_stds :: "nat \<Rightarrow> real list \<Rightarrow> real list" where
  "row_stds n xs =
     map (\<lambda>i. sqrt (sum_list (map (\<lambda>x. (x - row_means n xs ! i)\<^sup>2) (take n (drop (i * n) xs)))
                    / (real n - 1)))
       [0..<length xs div n]"

definition group_normalize :: "nat \<Rightarrow> real list \<Rightarrow> real list" where
  "group_normalize n xs =
     map (\<lambda>m. (xs ! m - row_means n xs ! (m div n)) / (row_stds n xs ! (m div n) + 1 / 10 ^ 8))
       [0..<length xs]"

text \<open>
  The scalar reward of every sample: \<^verbatim>\<open>length_reward + label_reward + pattern_reward\<close>
  when the reward has three components or more, \<^verbatim>\<open>length_reward + label_reward\<close>
  otherwise, where \<^verbatim>\<open>label_reward = reward[:, :, 0]\<close>, \<^verbatim>\<open>length_reward = reward[:, :, 1]\<close>
  and \<^verbatim>\<open>pattern_reward = reward[:, :, 2]\<close>.
\<close>

definition group_total :: "nat \<Rightarrow> real list \<Rightarrow> real list" where
  "group_total k xs =
     (if 3 \<le> k
      then map (\<lambda>m. component k 1 xs ! m + component k 0 xs ! m + component k 2 xs ! m)
             [0..<length xs div k]
      else map (\<lambda>m. component k 1 xs ! m + component k 0 xs ! m) [0..<length xs div k])"

text \<open>A one-dimensional tensor with the given entries.\<close>

definition flat_tensor :: "real list \<Rightarrow> pyval" where
  "flat_tensor xs = PTensor \<lparr>shape = [length xs], data = xs\<rparr>"

text \<open>
  The block of \<^verbatim>\<open>make_experience_list\<close> under
  \<^verbatim>\<open>if self.advantage_estimator in ["group_norm", "reinforce++"]\<close>. It returns the
  experience with its new \<^verbatim>\<open>info\<close> entries and the shaped reward. \<open>k\<close> is
  \<^verbatim>\<open>reward.size(-1)\<close>. \<^verbatim>\<open>complete_length[~flatten_mask] = 0\<close> needs a mask of the shape of
  \<^verbatim>\<open>response_length\<close>; the model takes a one-dimensional \<^verbatim>\<open>response_length\<close> only. Where a
  group has no completed item the source divides 0 by 0 in \<^verbatim>\<open>completion_length\<close>, a
  diagnostic; the model writes 0 there.
\<close>

definition group_norm_block :: "config \<Rightarrow> experience \<Rightarrow> pyval \<Rightarrow> error + (experience \<times> pyval)" where
  "group_norm_block args experience reward =
     (if \<not> 1 < n_samples_per_prompt args then Inl AssertionError
      else
        case reward of
          PTensor r \<Rightarrow>
            (case rev (shape r) of
               [] \<Rightarrow> Inl IndexError
             | k # s \<Rightarrow>
                 (let n = n_samples_per_prompt args in
                  if n * k = 0 \<or> length (data r) mod (n * k) \<noteq> 0 then Inl RuntimeError
                  else if k < 2 then Inl IndexError
                  else
                    let label_reward = component k 0 (data r);
                        acc_info = map (\<lambda>v. if v = 1 then 1 else 0) label_reward;
                        length_reward = component k 1 (data r);
                        pattern_reward = component k 2 (data r);
                        total = group_total k (data r);
                        std = row_stds n total;
                        shaped = group_normalize n total;
                        count_of_completion =
                          map (\<lambda>i. length (filter (\<lambda>v. - 1 \<le> v) (take n (drop (i * n) label_reward))))
                            [0..<length label_reward div n];
                        completion_ratio =
                          map (\<lambda>m. real (count_of_completion ! (m div n)) / real n)
                            [0..<length label_reward];
                        info1 = dict_set ''acc'' (flat_tensor acc_info) (info experience);
                        info2 = (if 3 \<le> k
                                 then dict_set ''pattern_reward'' (flat_tensor pattern_reward) info1
                                 else info1);
                        info3 = dict_set ''completion_ratio'' (flat_tensor completion_ratio)
                                 (dict_set ''reward_std''
                                    (flat_tensor (map (\<lambda>m. std ! (m div n)) [0..<length total]))
                                 (dict_set ''label_reward'' (flat_tensor label_reward)
                                 (dict_set ''length_reward'' (flat_tensor length_reward)
                                 (dict_set ''reward'' (flat_tensor total) info2))))
                    in
                    case map_of info3 ''response_length'' of
                      None \<Rightarrow> Inl (KeyError ''response_length'')
                    | Some (PTensor l) \<Rightarrow>
                        if shape l \<noteq> [length label_reward] then Inl IndexError
                        else
                          let complete_length =
                                map (\<lambda>m. if completion_ratio ! m = 0 then 0
                                          else (if - 1 \<le> label_reward ! m then data l ! m else 0)
                                               / completion_ratio ! m)
                                  [0..<length label_reward];
                              info4 = dict_set ''completion_length'' (flat_tensor complete_length) info3
                          in (case map_of info4 ''learn_mask'' of
                                None \<Rightarrow> Inr (experience\<lparr>info := info4\<rparr>, flat_tensor shaped)
                              | Some (PTensor lm) \<Rightarrow>
                                  Inr (experience
                                         \<lparr>info := dict_set ''learn_mask'' (flat_tensor (data lm)) info4\<rparr>,
                                       flat_tensor shaped)
                              | Some _ \<Rightarrow> Inl AttributeError)
                    | Some _ \<Rightarrow> Inl AttributeError))
        | _ \<Rightarrow> Inl AttributeError)"

subsection \<open>One experience and its reward\<close>

text \<open>\<^verbatim>\<open>generate_kwargs[k]\<close>.\<close>

definition kw_get :: "(string \<times> real) list \<Rightarrow> string \<Rightarrow> error + real" where
  "kw_get kw k = (case map_of kw k of None \<Rightarrow> Inl (KeyError k) | Some v \<Rightarrow> Inr v)"

text \<open>
  The \<^verbatim>\<open>action_mask\<close> of an experience as the estimators take it: \<^verbatim>\<open>None\<close> or a tensor.
  Any other value is not modelled further: the model ends with TypeError.
\<close>

definition mask_of :: "pyval \<Rightarrow> error + tensor option" where
  "mask_of v = (case v of PNone \<Rightarrow> Inr None | PTensor m \<Rightarrow> Inr (Some m) | _ \<Rightarrow> Inl TypeError)"

text \<open>Iterating over a tensor gives its slices along the first dimension.\<close>

definition tensor_rows :: "tensor \<Rightarrow> error + tensor list" where
  "tensor_rows t =
     (case shape t of
        [] \<Rightarrow> Inl TypeError
      | b # s \<Rightarrow>
          Inr (map (\<lambda>i. \<lparr>shape = s, data = take (prod_list s) (drop (i * prod_list s) (data t))\<rparr>)
                 [0..<b]))"

definition iter_pyval :: "pyval \<Rightarrow> error + pyval list" where
  "iter_pyval v =
     (case v of
        PList xs \<Rightarrow> Inr xs
      | PTensor t \<Rightarrow> (case tensor_rows t of Inl e \<Rightarrow> Inl e | Inr ts \<Rightarrow> Inr (map PTensor ts))
      | _ \<Rightarrow> Inl TypeError)"

text \<open>
  \<^verbatim>\<open>[torch.ones_like(logps.unsqueeze(0)) * r for logps, r in zip(experience.ref_log_probs,
  reward)]\<close>, for the one-dimensional reward that the group normalisation leaves.
\<close>

definition broadcast_rewards :: "pyval \<Rightarrow> pyval \<Rightarrow> error + pyval" where
  "broadcast_rewards ref_logps reward =
     bindE (iter_pyval ref_logps) (\<lambda>lps.
     bindE (case reward of
              PTensor r \<Rightarrow> (if length (shape r) = 1 then Inr (data r) else Inl Shape_mismatch)
            | PList rs \<Rightarrow> Inl Shape_mismatch
            | _ \<Rightarrow> Inl TypeError) (\<lambda>rs.
     bindE (mapE (\<lambda>(logps, r).
                    case logps of
                      PTensor t \<Rightarrow>
                        Inr (PTensor \<lparr>shape = 1 # shape t, data = replicate (length (data t)) r\<rparr>)
                    | _ \<Rightarrow> Inl AttributeError)
              (zip lps rs)) (\<lambda>rets.
     Inr (PList rets))))"

text \<open>
  The choice of the estimator, with the \<^verbatim>\<open>raise\<close> of its last branch. The arguments of a
  call are evaluated before it: a missing \<^verbatim>\<open>gamma\<close> or \<^verbatim>\<open>lambd\<close> raises first.
  \<^verbatim>\<open>deepcopy(experience.returns)\<close> is the same value.
\<close>

definition estimate ::
  "config \<Rightarrow> (string \<times> real) list \<Rightarrow> experience \<Rightarrow> pyval \<Rightarrow> error + experience" where
  "estimate args kw experience reward =
     (if advantage_estimator args = ''gae'' then
        bindE (kw_get kw ''gamma'') (\<lambda>g.
        bindE (kw_get kw ''lambd'') (\<lambda>l.
        bindE (mask_of (action_mask experience)) (\<lambda>m.
        bindE (get_advantages_and_returns (values experience) reward m g l) (\<lambda>(adv, ret).
        Inr (experience\<lparr>advantages := adv, returns := ret\<rparr>)))))
      else if advantage_estimator args \<in> {''reinforce'', ''rloo'', ''reinforce++''} then
        bindE (kw_get kw ''gamma'') (\<lambda>g.
        bindE (mask_of (action_mask experience)) (\<lambda>m.
        bindE (get_cumulative_returns reward m g) (\<lambda>ret.
        Inr (experience\<lparr>returns := ret, advantages := ret\<rparr>))))
      else if advantage_estimator args = ''group_norm'' then
        bindE (broadcast_rewards (ref_log_probs experience) reward) (\<lambda>ret.
        Inr (experience\<lparr>returns := ret, advantages := ret\<rparr>))
      else Inl (Unknown_estimator (advantage_estimator args)))"

text \<open>
  \<^verbatim>\<open>reward.sum(dim=-1)\<close>, or with packed samples
  \<^verbatim>\<open>torch.tensor([each_reward.sum() for each_reward in reward])\<close>.
\<close>

definition return_sums :: "config \<Rightarrow> pyval \<Rightarrow> error + pyval" where
  "return_sums args reward =
     (if \<not> packing_samples args then
        (case reward of
           PTensor r \<Rightarrow>
             (case rev (shape r) of
                [] \<Rightarrow> Inr (PTensor r)
              | k # s \<Rightarrow>
                  Inr (PTensor \<lparr>shape = rev s,
                         data = map (\<lambda>i. sum_list (take k (drop (i * k) (data r))))
                                  [0..<prod_list s]\<rparr>))
         | _ \<Rightarrow> Inl AttributeError)
      else
        bindE (iter_pyval reward) (\<lambda>each.
        bindE (mapE (\<lambda>v. case v of PTensor t \<Rightarrow> Inr (sum_list (data t)) | _ \<Rightarrow> Inl AttributeError)
                 each) (\<lambda>each_sum.
        Inr (flat_tensor each_sum))))"

text \<open>
  The external parts of a rollout. \<open>generate_samples\<close> and \<open>make_experience\<close> stand for the
  methods of these names, which drive the inference engines and the reference, critic
  and reward models; \<open>received_samples\<close> is what \<^verbatim>\<open>dist.broadcast_object_list\<close> delivers
  on a rank that does not generate; \<open>compute_reward\<close> is the function of
  \<^verbatim>\<open>openrlhf.models.utils\<close>, whose source is not part of the files, applied to the reward,
  \<^verbatim>\<open>experience.kl\<close>, \<^verbatim>\<open>experience.action_mask\<close> and \<^verbatim>\<open>num_actions\<close>. Each answers \<open>None\<close>
  when it raises.
\<close>

record ('p, 's) collaborators =
  generate_samples :: "'p \<Rightarrow> 's list option"
  received_samples :: "'s list option"
  make_experience :: "'s \<Rightarrow> experience option"
  compute_reward :: "pyval \<Rightarrow> pyval \<Rightarrow> pyval \<Rightarrow> pyval \<Rightarrow> pyval option"

text \<open>
  The body of the loop \<^verbatim>\<open>for experience, reward in zip(experiences, rewards)\<close>. The key
  \<^verbatim>\<open>num_actions\<close> is read first and nothing removes it before the \<^verbatim>\<open>del\<close>.
\<close>

definition advantage_one ::
  "('p, 's) collaborators \<Rightarrow> config \<Rightarrow> (string \<times> real) list \<Rightarrow> experience \<Rightarrow> pyval \<Rightarrow>
   error + experience" where
  "advantage_one env args kw experience reward =
     bindE (info_get experience ''num_actions'') (\<lambda>num_actions.
     bindE (if advantage_estimator args \<in> {''group_norm'', ''reinforce++''}
            then group_norm_block args experience reward
            else Inr (experience, reward)) (\<lambda>(experience, reward).
     bindE (if advantage_estimator args \<noteq> ''group_norm''
            then (case compute_reward env reward (kl experience) (action_mask experience)
                         num_actions of
                    None \<Rightarrow> Inl Collaborator_failure
                  | Some r \<Rightarrow> Inr r)
            else Inr reward) (\<lambda>reward.
     bindE (estimate args kw experience reward) (\<lambda>experience.
     bindE (return_sums args reward) (\<lambda>sum_of_returns.
     Inr (experience\<lparr>info := dict_del ''num_actions''
                              (dict_set ''return'' sum_of_returns (info experience)),
                     kl := PNone\<rparr>))))))"

subsection \<open>\<^verbatim>\<open>make_experience_list\<close>\<close>

text \<open>\<^verbatim>\<open>sum(xs, [])\<close> on a list of lists.\<close>

fun sum_lists :: "pyval list \<Rightarrow> error + pyval list" where
  "sum_lists [] = Inr []"
| "sum_lists (PList x # xs) =
     (case sum_lists xs of Inl e \<Rightarrow> Inl e | Inr r \<Rightarrow> Inr (x @ r))"
| "sum_lists (v # xs) = Inl TypeError"

text \<open>
  \<^verbatim>\<open>experiences[0].info['dump/rewards'] = sum(experiences[0].info['dump/rewards'], [])\<close>.
  A value that is not a list is not modelled further: the model ends with TypeError.
\<close>

definition flatten_dump :: "experience list \<Rightarrow> error + experience list" where
  "flatten_dump experiences =
     (case experiences of
        [] \<Rightarrow> Inl IndexError
      | e # es \<Rightarrow>
          bindE (info_get e ''dump/rewards'') (\<lambda>v.
          bindE (case v of PList xs \<Rightarrow> sum_lists xs | _ \<Rightarrow> Inl TypeError) (\<lambda>flat.
          Inr (e\<lparr>info := dict_set ''dump/rewards'' (PList flat) (info e)\<rparr> # es))))"

text \<open>
  Everything of \<^verbatim>\<open>make_experience_list\<close> after the experiences are made: no remote call
  is issued from here on. \<^verbatim>\<open>zip\<close> stops at the shorter list; the experiences beyond it
  are returned as they are.
\<close>

definition advantage_stage ::
  "('p, 's) collaborators \<Rightarrow> config \<Rightarrow> (string \<times> real) list \<Rightarrow> experience list \<Rightarrow>
   error + experience list" where
  "advantage_stage env args kw experiences =
     bindE (process_experiences args experiences) (\<lambda>(experiences, rewards).
     bindE (flatten_dump experiences) (\<lambda>experiences.
     bindE (mapE (\<lambda>(experience, reward). advantage_one env args kw experience reward)
              (zip experiences rewards)) (\<lambda>done.
     Inr (done @ drop (length rewards) experiences))))"

text \<open>
  The remote work of a rollout, in the order in which it is issued: the generation, the
  broadcast of the samples in a ring attention group, the call that puts the inference
  engines to sleep, the barrier, and one scoring per batch of samples.
\<close>

datatype 's event =
    Generate
  | Broadcast_samples
  | Vllm_sleep
  | Barrier
  | Make_experience 's

definition collect_samples ::
  "('p, 's) collaborators \<Rightarrow> config \<Rightarrow> 'p \<Rightarrow> 's event list \<times> (error + 's list)" where
  "collect_samples env args all_prompts =
     (case ring_attn_rank args of
        None \<Rightarrow>
          ([Generate],
           case generate_samples env all_prompts of
             None \<Rightarrow> Inl Collaborator_failure | Some l \<Rightarrow> Inr l)
      | Some rank \<Rightarrow>
          if rank = 0 then
            (case generate_samples env all_prompts of
               None \<Rightarrow> ([Generate], Inl Collaborator_failure)
             | Some l \<Rightarrow> ([Generate, Broadcast_samples], Inr l))
          else
            ([Broadcast_samples],
             case received_samples env of
               None \<Rightarrow> Inl Collaborator_failure | Some l \<Rightarrow> Inr l))"

fun score_all ::
  "('p, 's) collaborators \<Rightarrow> 's list \<Rightarrow> 's event list \<times> (error + experience list)" where
  "score_all env [] = ([], Inr [])"
| "score_all env (samples # samples_list) =
     (case make_experience env samples of
        None \<Rightarrow> ([Make_experience samples], Inl Collaborator_failure)
      | Some e \<Rightarrow>
          (case score_all env samples_list of
             (ev, Inl err) \<Rightarrow> (Make_experience samples # ev, Inl err)
           | (ev, Inr es) \<Rightarrow> (Make_experience samples # ev, Inr (e # es))))"

text \<open>
  \<^verbatim>\<open>NaiveExperienceMaker.make_experience_list\<close>: the remote work issued and the outcome.
\<close>

definition make_experience_list ::
  "('p, 's) collaborators \<Rightarrow> config \<Rightarrow> (string \<times> real) list \<Rightarrow> 'p \<Rightarrow>
   's event list \<times> (error + experience list)" where
  "make_experience_list env args kw all_prompts =
     (case collect_samples env args all_prompts of
        (ev1, Inl e) \<Rightarrow> (ev1, Inl e)
      | (ev1, Inr samples_list) \<Rightarrow>
          (let ev2 = ev1 @ (if vllm_enable_sleep args then [Vllm_sleep] else []) @ [Barrier]
           in case score_all env samples_list of
                (ev3, Inl e) \<Rightarrow> (ev2 @ ev3, Inl e)
              | (ev3, Inr experiences) \<Rightarrow>
                  (ev2 @ ev3, advantage_stage env args kw experiences)))"

subsection \<open>The group statistics in closed form\<close>




section \<open>Verification\<close>

subsection \<open>Cumulative returns\<close>

lemma length_set_col [simp]: "length (set_col B T xs t c) = B * T"
  by (simp add: set_col_def)

lemma length_cumulative_loop:
  "length rets = B * T \<Longrightarrow> length (cumulative_loop gamma B T rewards n cum rets) = B * T"
  by (induction n arbitrary: cum rets) (simp_all add: Let_def)

lemma idx_lt: "b < B \<Longrightarrow> j < T \<Longrightarrow> b * T + j < B * (T::nat)"
proof -
  assume a: "b < B" "j < T"
  then have "b * T + j < b * T + T" by simp
  also have "\<dots> = (Suc b) * T" by simp
  also have "\<dots> \<le> B * T" using a by (intro mult_le_mono1) simp
  finally show ?thesis .
qed

lemma set_col_nth:
  "b < B \<Longrightarrow> j < T \<Longrightarrow>
   set_col B T xs t c ! (b * T + j) = (if j = t then c ! b else xs ! (b * T + j))"
  using idx_lt[of b B j T] by (simp add: set_col_def)

lemma col_nth: "b < B \<Longrightarrow> col B T xs t ! b = xs ! (b * T + t)"
  by (simp add: col_def)

lemma cumulative_loop_nth:
  "n \<le> T \<Longrightarrow> b < B \<Longrightarrow> j < T \<Longrightarrow> length cum = B \<Longrightarrow> 
   cumulative_loop gamma B T rewards n cum rets ! (b * T + j) =
     (if j < n then (\<Sum>k = j..<n. gamma ^ (k - j) * rewards ! (b * T + k)) + gamma ^ (n - j) * cum ! b
      else rets ! (b * T + j))"
proof (induction n arbitrary: cum rets)
  case 0
  then show ?case by simp
next
  case (Suc n)
  let ?c = "map (\<lambda>b. col B T rewards n ! b + gamma * cum ! b) [0..<B]"
  have len: "length ?c = B" by simp
  have n: "n \<le> T" using Suc.prems by simp
  have cb: "?c ! b = rewards ! (b * T + n) + gamma * cum ! b"
    using Suc.prems by (simp add: col_nth)
  show ?case
  proof (cases "j < n")
    case True
    then have "gamma ^ (Suc n - j) = gamma ^ (n - j) * gamma"
      by (simp add: Suc_diff_le)
    with True show ?thesis
      using Suc.IH[OF n Suc.prems(2,3) len, of "set_col B T rets n ?c"] cb
      by (simp add: Let_def algebra_simps)
  next
    case False
    show ?thesis
    proof (cases "j = n")
      case True
      then show ?thesis
        using Suc.IH[OF n Suc.prems(2,3) len, of "set_col B T rets n ?c"] cb Suc.prems
        by (simp add: Let_def set_col_nth)
    next
      case False
      with \<open>\<not> j < n\<close> have "\<not> j < Suc n" by simp
      then show ?thesis
        using Suc.IH[OF n Suc.prems(2,3) len, of "set_col B T rets n ?c"] False Suc.prems \<open>\<not> j < n\<close>
        by (simp add: Let_def set_col_nth)
    qed
  qed
qed


lemma upt3: "[0..<3] = [0, 1, 2]" by (simp add: upt_rec)

lemma tmul_ones:
  assumes "wf_tensor m" "wf_tensor r" "shape m = shape r" "\<forall>x\<in>set (data m). x = 1"
  shows "tmul m r = Inr r"
proof -
  have len: "length (data m) = length (data r)"
    using assms by (simp add: wf_tensor_def)
  have "map (\<lambda>i. data m ! i * data r ! i) [0..<length (data r)] = data r"
    using assms(4) len by (intro nth_equalityI) simp_all
  then show ?thesis using assms(3) by (simp add: tmul_def)
qed

lemma cumulative_batched_closed_form:
  assumes "wf_tensor rewards" "shape rewards = [B, T]"
    and "amask = None \<or> (\<exists>m. amask = Some m \<and> wf_tensor m \<and> shape m = [B, T] \<and> (\<forall>x\<in>set (data m). x = 1))"
  shows "\<exists>ret. get_cumulative_returns_batched rewards amask gamma = Inr ret \<and>
           shape ret = [B, T] \<and> wf_tensor ret \<and>
           (\<forall>b<B. \<forall>t<T. at2 ret b t = (\<Sum>k = t..<T. gamma ^ (k - t) * at2 rewards b k))"
proof -
  have masked: "(case amask of None \<Rightarrow> Inr rewards | Some m \<Rightarrow> tmul m rewards) = Inr rewards"
    using assms tmul_ones[of _ rewards] by (auto split: option.splits)
  let ?d = "cumulative_loop gamma B T (data rewards) T (replicate B 0) (replicate (B * T) 0)"
  let ?ret = "\<lparr>shape = [B, T], data = ?d\<rparr>"
  have r: "get_cumulative_returns_batched rewards amask gamma = Inr ?ret"
    using assms(2) masked by (simp add: get_cumulative_returns_batched_def bindE_def)
  have len: "length ?d = B * T" by (simp add: length_cumulative_loop)
  have "at2 ?ret b t = (\<Sum>k = t..<T. gamma ^ (k - t) * at2 rewards b k)" if "b < B" "t < T" for b t
    using cumulative_loop_nth[of T T b B t "replicate B 0" gamma "data rewards" "replicate (B * T) 0"] that assms(2)
    by (simp add: at2_def)
  then show ?thesis using r len by (simp add: wf_tensor_def)
qed

text \<open>
  Claim C2. With an all-ones action mask, \<^verbatim>\<open>get_cumulative_returns\<close> returns, for every
  row \<open>b\<close> and timestep \<open>t\<close>, the discounted sum \<open>\<Sum>k\<ge>t. gamma^(k-t) * r\<^sub>k\<close> of the row's
  rewards; rewards \<open>[1, 1, 1]\<close> with discount \<open>1/2\<close> give \<open>[7/4, 3/2, 1]\<close>.
\<close>

theorem cumulative_returns_closed_form:
  "(\<forall>rewards amask B T gamma.
      wf_tensor rewards \<and> shape rewards = [B, T] \<and> wf_tensor amask \<and> shape amask = [B, T] \<and>
      (\<forall>x\<in>set (data amask). x = 1) \<longrightarrow>
      (\<exists>ret. get_cumulative_returns (PTensor rewards) (Some amask) gamma = Inr (PTensor ret) \<and>
         shape ret = [B, T] \<and> wf_tensor ret \<and>
         (\<forall>b<B. \<forall>t<T. at2 ret b t = (\<Sum>k = t..<T. gamma ^ (k - t) * at2 rewards b k)))) \<and>
   get_cumulative_returns (PTensor \<lparr>shape = [1, 3], data = [1, 1, 1]\<rparr>)
     (Some \<lparr>shape = [1, 3], data = [1, 1, 1]\<rparr>) (1 / 2) =
     Inr (PTensor \<lparr>shape = [1, 3], data = [7 / 4, 3 / 2, 1]\<rparr>)"
proof (intro conjI allI impI)
  fix rewards amask :: tensor and B T :: nat and gamma :: real
  assume a: "wf_tensor rewards \<and> shape rewards = [B, T] \<and> wf_tensor amask \<and> shape amask = [B, T] \<and>
      (\<forall>x\<in>set (data amask). x = 1)"
  then obtain ret where "get_cumulative_returns_batched rewards (Some amask) gamma = Inr ret"
      "shape ret = [B, T]" "wf_tensor ret"
      "\<forall>b<B. \<forall>t<T. at2 ret b t = (\<Sum>k = t..<T. gamma ^ (k - t) * at2 rewards b k)"
    using cumulative_batched_closed_form[of rewards B T "Some amask" gamma] by auto
  then show "\<exists>ret. get_cumulative_returns (PTensor rewards) (Some amask) gamma = Inr (PTensor ret) \<and>
         shape ret = [B, T] \<and> wf_tensor ret \<and>
         (\<forall>b<B. \<forall>t<T. at2 ret b t = (\<Sum>k = t..<T. gamma ^ (k - t) * at2 rewards b k))"
    by (simp add: get_cumulative_returns_def)
next
  have "cumulative_loop (1 / 2) 1 3 [1, 1, 1] (Suc (Suc (Suc 0))) [0] [0, 0, 0] = [7 / 4, 3 / 2, 1]"
    by (simp add: col_def set_col_def Let_def upt3)
  then show "get_cumulative_returns (PTensor \<lparr>shape = [1, 3], data = [1, 1, 1]\<rparr>)
     (Some \<lparr>shape = [1, 3], data = [1, 1, 1]\<rparr>) (1 / 2) =
     Inr (PTensor \<lparr>shape = [1, 3], data = [7 / 4, 3 / 2, 1]\<rparr>)"
    by (simp add: get_cumulative_returns_def get_cumulative_returns_batched_def bindE_def tmul_def
        numeral_3_eq_3 upt3)
qed

theorem cumulative_returns_closed_form_witness:
  "wf_tensor \<lparr>shape = [1, 3], data = [1, 1, 1]\<rparr> \<and>
   (\<exists>ret. get_cumulative_returns (PTensor \<lparr>shape = [1, 3], data = [1, 1, 1]\<rparr>)
     (Some \<lparr>shape = [1, 3], data = [1, 1, 1]\<rparr>) (1 / 2) = Inr (PTensor ret) \<and>
     shape ret = [1, 3] \<and> wf_tensor ret \<and>
     at2 ret 0 0 = (\<Sum>k = 0..<3. (1 / 2) ^ (k - 0) * 1) \<and> at2 ret 0 0 = 7 / 4)"
proof -
  let ?r = "\<lparr>shape = [1, 3], data = [1, 1, 1]\<rparr>"
  have wf: "wf_tensor ?r" by (simp add: wf_tensor_def)
  from cumulative_returns_closed_form[THEN conjunct1, rule_format, of ?r 1 3 ?r "1 / 2"] wf
  obtain ret where r: "get_cumulative_returns (PTensor ?r) (Some ?r) (1 / 2) = Inr (PTensor ret)"
    and sh: "shape ret = [1, 3]" "wf_tensor ret"
    and e: "\<forall>b<1. \<forall>t<3. at2 ret b t = (\<Sum>k = t..<3. (1 / 2) ^ (k - t) * at2 ?r b k)"
    by auto
  have "\<forall>k<3. at2 ?r 0 k = 1"
    by (simp add: at2_def nth_Cons split: nat.splits)
  then have e0: "at2 ret 0 0 = (\<Sum>k = 0..<3. (1 / 2) ^ (k - 0) * 1)"
    using e by simp
  have "{0..<3::nat} = {0, 1, 2}" by auto
  then have "(\<Sum>k = 0..<3::nat. (1 / 2 :: real) ^ (k - 0) * 1) = 7 / 4"
    by (simp add: power2_eq_square)
  with r sh e0 wf show ?thesis by auto
qed

subsection \<open>Generalized advantage estimation\<close>

lemma concat_uniform_length:
  "\<forall>x\<in>set xss. length x = T \<Longrightarrow> length (concat xss) = length xss * T"
  by (induction xss) simp_all

lemma concat_uniform_nth:
  "\<forall>x\<in>set xss. length x = T \<Longrightarrow> i < length xss \<Longrightarrow> j < T \<Longrightarrow>
   concat xss ! (i * T + j) = xss ! i ! j"
proof (induction xss arbitrary: i)
  case Nil
  then show ?case by simp
next
  case (Cons x xss)
  show ?case
  proof (cases i)
    case 0
    then show ?thesis using Cons.prems by (simp add: nth_append)
  next
    case (Suc i')
    then have "concat (x # xss) ! (i * T + j) = concat xss ! (i' * T + j)"
      using Cons.prems by (simp add: nth_append)
    then show ?thesis using Cons Suc by simp
  qed
qed

lemma gae_loop_length:
  "length (gae_loop gamma lambd B T vals rewards n lst acc) = length acc + n"
  by (induction n arbitrary: lst acc) (simp_all add: Let_def)

lemma gae_loop_prefix:
  "i < length acc \<Longrightarrow> gae_loop gamma lambd B T vals rewards n lst acc ! i = acc ! i"
  by (induction n arbitrary: lst acc) (simp_all add: Let_def nth_append)

lemma gae_loop_row_length:
  "\<forall>c\<in>set acc. length c = B \<Longrightarrow>
   \<forall>c\<in>set (gae_loop gamma lambd B T vals rewards n lst acc). length c = B"
proof (induction n arbitrary: lst acc)
  case 0
  then show ?case by simp
next
  case (Suc n)
  show ?case
    unfolding gae_loop.simps Let_def
    by (rule Suc.IH) (use Suc.prems in simp)
qed

lemma gae_loop_step:
  "n \<le> T \<Longrightarrow> k < n \<Longrightarrow> b < B \<Longrightarrow>
   gae_loop gamma lambd B T vals rewards n lst acc ! (length acc + k) ! b =
     (rewards ! (b * T + (n - 1 - k)) +
      gamma * (if n - 1 - k + 1 < T then vals ! (b * T + (n - 1 - k + 1)) else 0) -
      vals ! (b * T + (n - 1 - k))) +
     gamma * lambd *
       (if k = 0 then lst ! b
        else gae_loop gamma lambd B T vals rewards n lst acc ! (length acc + k - 1) ! b)"
proof (induction n arbitrary: lst acc k)
  case 0
  then show ?case by simp
next
  case (Suc n)
  let ?nv = "if n < T - 1 then col B T vals (n + 1) else replicate B 0"
  let ?delta = "map (\<lambda>b. col B T rewards n ! b + gamma * ?nv ! b - col B T vals n ! b) [0..<B]"
  let ?last = "map (\<lambda>b. ?delta ! b + gamma * lambd * lst ! b) [0..<B]"
  let ?res = "gae_loop gamma lambd B T vals rewards n ?last (acc @ [?last])"
  have unfold: "gae_loop gamma lambd B T vals rewards (Suc n) lst acc = ?res"
    by (simp add: Let_def)
  have nT: "n < T" using Suc.prems by simp
  have nv: "?nv ! b = (if n + 1 < T then vals ! (b * T + (n + 1)) else 0)"
    using Suc.prems nT by (auto simp: col_def)
  have lastb: "?last ! b = (rewards ! (b * T + n) + gamma * (if n + 1 < T then vals ! (b * T + (n + 1)) else 0) -
      vals ! (b * T + n)) + gamma * lambd * lst ! b"
    using Suc.prems nv by (simp add: col_def)
  have at_acc: "?res ! length acc = ?last"
    using gae_loop_prefix[of "length acc" "acc @ [?last]" gamma lambd B T "vals" rewards n "?last"]
    by simp
  show ?case
  proof (cases k)
    case 0
    then show ?thesis unfolding unfold using at_acc lastb by simp
  next
    case (Suc k')
    have k': "k' < n" using Suc Suc.prems by simp
    have "n \<le> T" using nT by simp
    from Suc.IH[OF this k' Suc.prems(3), of "?last" "acc @ [?last]"]
    have ih: "?res ! (length acc + Suc k') ! b =
        (rewards ! (b * T + (n - 1 - k')) +
         gamma * (if n - 1 - k' + 1 < T then vals ! (b * T + (n - 1 - k' + 1)) else 0) -
         vals ! (b * T + (n - 1 - k'))) +
        gamma * lambd * (if k' = 0 then ?last ! b else ?res ! (length acc + Suc k' - 1) ! b)"
      by simp
    have "(if k' = 0 then ?last ! b else ?res ! (length acc + Suc k' - 1) ! b) =
          ?res ! (length acc + Suc k' - 1) ! b"
      using at_acc by (cases k') simp_all
    with ih show ?thesis unfolding unfold using Suc by simp
  qed
qed


lemma apply_mask_ok:
  assumes "wf_tensor x" "shape x = [B, T]"
    and "case amask of None \<Rightarrow> True | Some m \<Rightarrow> wf_tensor m \<and> shape m = [B, T]"
  shows "\<exists>x'. (case amask of None \<Rightarrow> Inr x | Some m \<Rightarrow> tmul m x) = Inr x' \<and>
           shape x' = [B, T] \<and> length (data x') = B * T \<and>
           (\<forall>b<B. \<forall>j<T. data x' ! (b * T + j) = masked_at amask x b j)"
proof (cases amask)
  case None
  then show ?thesis using assms by (simp add: masked_at_def at2_def wf_tensor_def)
next
  case (Some m)
  let ?x' = "\<lparr>shape = shape x, data = map (\<lambda>i. data m ! i * data x ! i) [0..<length (data x)]\<rparr>"
  have m: "wf_tensor m" "shape m = [B, T]" using assms(3) Some by simp_all
  have len: "length (data x) = B * T" "length (data m) = B * T"
    using assms m by (simp_all add: wf_tensor_def)
  have "data ?x' ! (b * T + j) = masked_at amask x b j" if "b < B" "j < T" for b j
  proof -
    have "b * T + j < B * T" using that
      by (rule idx_lt)
    then show ?thesis using Some len assms(2) m by (simp add: masked_at_def at2_def)
  qed
  moreover have "tmul m x = Inr ?x'" using m assms(2) by (simp add: tmul_def)
  ultimately show ?thesis using Some assms(2) len by simp
qed


lemma gae_batched_correct:
  assumes v: "wf_tensor vals" "shape vals = [B, T]"
    and r: "wf_tensor rewards" "shape rewards = [B, T]"
    and m: "case amask of None \<Rightarrow> True | Some m \<Rightarrow> wf_tensor m \<and> shape m = [B, T]"
  shows "(0 < T \<longrightarrow>
            (\<exists>adv ret. get_advantages_and_returns_batched vals rewards amask gamma lambd
                 = Inr (adv, ret))) \<and>
         (\<forall>adv ret. get_advantages_and_returns_batched vals rewards amask gamma lambd
                 = Inr (adv, ret) \<longrightarrow>
            shape adv = [B, T] \<and> shape ret = [B, T] \<and> wf_tensor adv \<and> wf_tensor ret \<and>
            (\<forall>b<B. \<forall>t<T.
               at2 adv b t =
                 (masked_at amask rewards b t +
                  gamma * (if t + 1 < T then masked_at amask vals b (t + 1) else 0) -
                  masked_at amask vals b t) +
                 gamma * lambd * (if t + 1 < T then at2 adv b (t + 1) else 0) \<and>
               at2 ret b t = at2 adv b t + masked_at amask vals b t))"
proof -
  obtain v' where v': "(case amask of None \<Rightarrow> Inr vals | Some m \<Rightarrow> tmul m vals) = Inr v'"
      "shape v' = [B, T]" "length (data v') = B * T"
      "\<forall>b<B. \<forall>j<T. data v' ! (b * T + j) = masked_at amask vals b j"
    using apply_mask_ok[OF v m] by blast
  obtain r' where r': "(case amask of None \<Rightarrow> Inr rewards | Some m \<Rightarrow> tmul m rewards) = Inr r'"
      "shape r' = [B, T]" "length (data r') = B * T"
      "\<forall>b<B. \<forall>j<T. data r' ! (b * T + j) = masked_at amask rewards b j"
    using apply_mask_ok[OF r m] by blast
  let ?res = "gae_loop gamma lambd B T (data v') (data r') T (replicate B 0) []"
  let ?cols = "rev ?res"
  have run: "get_advantages_and_returns_batched vals rewards amask gamma lambd =
      bindE (stack_dim1 B ?cols) (\<lambda>advs.
        bindE (tadd advs v') (\<lambda>rets. Inr (advs, rets)))"
    using v(2) r(2) v'(1) r'(1)
    by (simp add: get_advantages_and_returns_batched_def bindE_def)
  have len: "length ?res = T" by (simp add: gae_loop_length)
  have rows: "\<forall>c\<in>set ?res. length c = B"
    by (rule gae_loop_row_length) simp
  show ?thesis
  proof (cases "T = 0")
    case True
    then show ?thesis using run by (simp add: stack_dim1_def bindE_def)
  next
    case False
    let ?adv = "\<lparr>shape = [B, T], data = concat (map (\<lambda>b. map (\<lambda>c. c ! b) ?cols) [0..<B])\<rparr>"
    let ?ret = "\<lparr>shape = [B, T], data = map (\<lambda>i. data ?adv ! i + data v' ! i) [0..<B * T]\<rparr>"
    have ne: "?cols \<noteq> []" using len False by (metis length_0_conv rev_is_Nil_conv)
    have st: "stack_dim1 B ?cols = Inr ?adv"
      using ne len by (simp add: stack_dim1_def)
    have ta: "tadd ?adv v' = Inr ?ret"
      using v'(2,3) by (simp add: tadd_def)
    have res: "get_advantages_and_returns_batched vals rewards amask gamma lambd =
        Inr (?adv, ?ret)"
      using run st ta by (simp add: bindE_def)
    have uni: "\<forall>x\<in>set (map (\<lambda>b. map (\<lambda>c. c ! b) ?cols) [0..<B]). length x = T"
      using len by simp
    have alen: "length (data ?adv) = B * T"
      using concat_uniform_length[OF uni] by simp
    have adv_at: "at2 ?adv b t = ?res ! (T - 1 - t) ! b" if "b < B" "t < T" for b t
    proof -
      have "data ?adv ! (b * T + t) = map (\<lambda>b. map (\<lambda>c. c ! b) ?cols) [0..<B] ! b ! t"
        using concat_uniform_nth[OF uni, of b t] that by simp
      also have "\<dots> = ?cols ! t ! b" using that len by simp
      also have "\<dots> = ?res ! (T - 1 - t) ! b"
        using that len by (simp add: rev_nth)
      finally show ?thesis by (simp add: at2_def)
    qed
    have rec: "at2 ?adv b t =
                 (masked_at amask rewards b t +
                  gamma * (if t + 1 < T then masked_at amask vals b (t + 1) else 0) -
                  masked_at amask vals b t) +
                 gamma * lambd * (if t + 1 < T then at2 ?adv b (t + 1) else 0)"
      if "b < B" "t < T" for b t
    proof -
      have k: "T - 1 - t < T" "T - 1 - (T - 1 - t) = t" using that by simp_all
      have step: "?res ! (T - 1 - t) ! b =
          (data r' ! (b * T + t) + gamma * (if t + 1 < T then data v' ! (b * T + (t + 1)) else 0) -
           data v' ! (b * T + t)) +
          gamma * lambd * (if T - 1 - t = 0 then replicate B 0 ! b else ?res ! (T - 1 - t - 1) ! b)"
        using gae_loop_step[of T T "T - 1 - t" b B gamma lambd "data v'" "data r'" "replicate B 0" "[]"]
          that k by simp
      have vt: "data v' ! (b * T + t) = masked_at amask vals b t"
        and rt: "data r' ! (b * T + t) = masked_at amask rewards b t"
        using v'(4) r'(4) that by blast+
      show ?thesis
      proof (cases "t + 1 < T")
        case True
        then have "data v' ! (b * T + (t + 1)) = masked_at amask vals b (t + 1)"
          using v'(4) that by blast
        moreover have "T - 1 - t \<noteq> 0" "T - 1 - t - 1 = T - 1 - (t + 1)" using True by simp_all
        ultimately show ?thesis
          using step True that adv_at[of b t] adv_at[of b "t + 1"] vt rt by simp
      next
        case False
        then have "T - 1 - t = 0" using that by simp
        then show ?thesis
          using step False that adv_at[of b t] vt rt by simp
      qed
    qed
    have ret_at: "at2 ?ret b t = at2 ?adv b t + masked_at amask vals b t"
      if "b < B" "t < T" for b t
      using that idx_lt[of b B t T] v'(4) by (simp add: at2_def)
    have "wf_tensor ?adv" "wf_tensor ?ret"
      using alen by (simp_all add: wf_tensor_def)
    then show ?thesis using res rec ret_at False by simp
  qed
qed


text \<open>
  Claim C1. On a values/rewards pair of shape \<open>[B, T]\<close> and any action mask of that
  shape (or none), \<^verbatim>\<open>get_advantages_and_returns\<close> returns whenever \<open>T > 0\<close>, and what it
  returns satisfies the backward recurrence
  \<open>delta\<^sub>t = r\<^sub>t + gamma * v\<^sub>t\<^sub>+\<^sub>1 - v\<^sub>t\<close>, \<open>adv\<^sub>t = delta\<^sub>t + gamma * lambd * adv\<^sub>t\<^sub>+\<^sub>1\<close>
  (both \<open>v\<close> and \<open>adv\<close> are 0 past the last timestep) and \<open>returns = advantages + values\<close>
  entry by entry, where \<open>r\<close> and \<open>v\<close> are the masked rewards and values. With \<open>T = 0\<close>
  the source raises in \<^verbatim>\<open>torch.stack\<close> and returns nothing.
\<close>

theorem gae_recurrence:
  assumes "wf_tensor vals" "shape vals = [B, T]"
    and "wf_tensor rewards" "shape rewards = [B, T]"
    and "case amask of None \<Rightarrow> True | Some m \<Rightarrow> wf_tensor m \<and> shape m = [B, T]"
  shows "(0 < T \<longrightarrow>
            (\<exists>adv ret. get_advantages_and_returns (PTensor vals) (PTensor rewards) amask
                 gamma lambd = Inr (PTensor adv, PTensor ret))) \<and>
         (\<forall>advs rets.
            get_advantages_and_returns (PTensor vals) (PTensor rewards) amask gamma lambd
              = Inr (advs, rets) \<longrightarrow>
            (\<exists>adv ret. advs = PTensor adv \<and> rets = PTensor ret \<and>
               shape adv = [B, T] \<and> shape ret = [B, T] \<and> wf_tensor adv \<and> wf_tensor ret \<and>
               (\<forall>b<B. \<forall>t<T.
                  at2 adv b t =
                    (masked_at amask rewards b t +
                     gamma * (if t + 1 < T then masked_at amask vals b (t + 1) else 0) -
                     masked_at amask vals b t) +
                    gamma * lambd * (if t + 1 < T then at2 adv b (t + 1) else 0) \<and>
                  at2 ret b t = at2 adv b t + masked_at amask vals b t)))"
proof -
  note c = gae_batched_correct[OF assms, of gamma lambd]
  show ?thesis
  proof (intro conjI impI allI)
    assume "0 < T"
    then obtain adv ret where
      "get_advantages_and_returns_batched vals rewards amask gamma lambd = Inr (adv, ret)"
      using c by blast
    then show "\<exists>adv ret. get_advantages_and_returns (PTensor vals) (PTensor rewards) amask
                 gamma lambd = Inr (PTensor adv, PTensor ret)"
      by (simp add: get_advantages_and_returns_def)
  next
    fix advs rets
    assume a: "get_advantages_and_returns (PTensor vals) (PTensor rewards) amask gamma lambd
              = Inr (advs, rets)"
    then obtain adv ret where b:
      "get_advantages_and_returns_batched vals rewards amask gamma lambd = Inr (adv, ret)"
      "advs = PTensor adv" "rets = PTensor ret"
      by (auto simp: get_advantages_and_returns_def split: sum.splits)
    with c show "\<exists>adv ret. advs = PTensor adv \<and> rets = PTensor ret \<and>
               shape adv = [B, T] \<and> shape ret = [B, T] \<and> wf_tensor adv \<and> wf_tensor ret \<and>
               (\<forall>b<B. \<forall>t<T.
                  at2 adv b t =
                    (masked_at amask rewards b t +
                     gamma * (if t + 1 < T then masked_at amask vals b (t + 1) else 0) -
                     masked_at amask vals b t) +
                    gamma * lambd * (if t + 1 < T then at2 adv b (t + 1) else 0) \<and>
                  at2 ret b t = at2 adv b t + masked_at amask vals b t)"
      by blast
  qed
qed

theorem gae_recurrence_witness:
  "wf_tensor \<lparr>shape = [1, 2], data = [1, 2]\<rparr> \<and> wf_tensor \<lparr>shape = [1, 2], data = [3, 4]\<rparr> \<and>
   wf_tensor \<lparr>shape = [1, 2], data = [1, 0]\<rparr> \<and>
   (\<exists>adv ret.
      get_advantages_and_returns (PTensor \<lparr>shape = [1, 2], data = [1, 2]\<rparr>)
        (PTensor \<lparr>shape = [1, 2], data = [3, 4]\<rparr>) (Some \<lparr>shape = [1, 2], data = [1, 0]\<rparr>)
        (1 / 2) (1 / 2) = Inr (PTensor adv, PTensor ret) \<and>
      at2 adv 0 1 = 0 \<and> at2 adv 0 0 = 2 \<and> at2 ret 0 1 = 0 \<and> at2 ret 0 0 = 3)"
proof -
  let ?v = "\<lparr>shape = [1, 2], data = [1, 2]\<rparr>"
  let ?r = "\<lparr>shape = [1, 2], data = [3, 4]\<rparr>"
  let ?m = "\<lparr>shape = [1, 2], data = [1, 0]\<rparr>"
  have wf: "wf_tensor ?v" "wf_tensor ?r" "wf_tensor ?m" by (simp_all add: wf_tensor_def)
  have sh: "shape ?v = [1, 2]" "shape ?r = [1, 2]" by simp_all
  have mk: "case Some ?m of None \<Rightarrow> True | Some m \<Rightarrow> wf_tensor m \<and> shape m = [1, 2]"
    using wf by simp
  note g = gae_recurrence[OF wf(1) sh(1) wf(2) sh(2) mk, of "1 / 2" "1 / 2"]
  from g obtain adv ret where res:
    "get_advantages_and_returns (PTensor ?v) (PTensor ?r) (Some ?m) (1 / 2) (1 / 2)
       = Inr (PTensor adv, PTensor ret)"
    by auto
  with g have rec: "\<forall>b<1. \<forall>t<2.
      at2 adv b t =
        (masked_at (Some ?m) ?r b t +
         (1 / 2) * (if t + 1 < 2 then masked_at (Some ?m) ?v b (t + 1) else 0) -
         masked_at (Some ?m) ?v b t) +
        (1 / 2) * (1 / 2) * (if t + 1 < 2 then at2 adv b (t + 1) else 0) \<and>
      at2 ret b t = at2 adv b t + masked_at (Some ?m) ?v b t"
    by auto
  have m: "masked_at (Some ?m) ?r 0 0 = 3" "masked_at (Some ?m) ?r 0 1 = 0"
    "masked_at (Some ?m) ?v 0 0 = 1" "masked_at (Some ?m) ?v 0 1 = 0"
    by (simp_all add: masked_at_def at2_def)
  have a1: "at2 adv 0 1 = 0" and r1: "at2 ret 0 1 = 0"
    using rec[rule_format, of 0 1] m by simp_all
  have a0: "at2 adv 0 0 = 2" and r0: "at2 ret 0 0 = 3"
    using rec[rule_format, of 0 0] m a1 by simp_all
  show ?thesis using wf res a1 a0 r1 r0 by blast
qed

subsection \<open>The request aggregator\<close>

lemma dict_set_fresh: "k \<notin> fst ` set d \<Longrightarrow> dict_set k v d = d @ [(k, v)]"
  by (induction d) auto

lemma register_all_append:
  "register_all generate (xs @ ys) s =
     (case register_all generate xs s of Inl e \<Rightarrow> Inl e | Inr s' \<Rightarrow> register_all generate ys s')"
  by (induction xs arbitrary: s) (auto split: sum.splits)

lemma register_all_accumulate:
  "distinct (map fst regs) \<Longrightarrow> fst ` set regs \<inter> fst ` set (requests s) = {} \<Longrightarrow>
   actor_counter s + length regs < num_actors s \<Longrightarrow>
   register_all generate regs s =
     Inr (s\<lparr>requests := requests s @ map (\<lambda>(rank, sp, p). (rank, p)) regs,
            actor_counter := actor_counter s + length regs\<rparr>)"
proof (induction regs arbitrary: s)
  case Nil
  then show ?case by simp
next
  case (Cons reg regs)
  obtain rank sp p where reg: "reg = (rank, sp, p)" by (cases reg)
  let ?s1 = "s\<lparr>requests := requests s @ [(rank, p)], actor_counter := actor_counter s + 1\<rparr>"
  have fresh: "rank \<notin> fst ` set (requests s)" using Cons.prems(2) reg by auto
  have step: "add_requests generate rank sp p s = Inr ?s1"
    using Cons.prems(3) fresh by (simp add: add_requests_def Let_def dict_set_fresh)
  have "distinct (map fst regs)" using Cons.prems(1) by simp
  moreover have "fst ` set regs \<inter> fst ` set (requests ?s1) = {}"
    using Cons.prems(1,2) reg by auto
  moreover have "actor_counter ?s1 + length regs < num_actors ?s1" using Cons.prems(3) by simp
  ultimately have "register_all generate regs ?s1 =
     Inr (?s1\<lparr>requests := requests ?s1 @ map (\<lambda>(rank, sp, p). (rank, p)) regs,
            actor_counter := actor_counter ?s1 + length regs\<rparr>)"
    by (rule Cons.IH)
  then show ?case using step reg by simp
qed

lemma slice_responses_shape:
  "distinct (map fst nr) \<Longrightarrow> fst ` set nr \<inter> fst ` set acc = {} \<Longrightarrow>
   \<exists>d. slice_responses rs offset nr acc = acc @ d \<and> map fst d = map fst nr \<and>
       concat (map snd d) = take (sum_list (map snd nr)) (drop offset rs) \<and>
       (offset + sum_list (map snd nr) \<le> length rs \<longrightarrow> map (\<lambda>(rank, slice). length slice) d = map snd nr)"
proof (induction nr arbitrary: offset acc)
  case Nil
  then show ?case by simp
next
  case (Cons x nr)
  obtain rank num where x: "x = (rank, num)" by (cases x)
  let ?slice = "take num (drop offset rs)"
  have fresh: "rank \<notin> fst ` set acc" using Cons.prems(2) x by auto
  have d: "distinct (map fst nr)" using Cons.prems(1) by simp
  have i: "fst ` set nr \<inter> fst ` set (acc @ [(rank, ?slice)]) = {}"
    using Cons.prems x by auto
  from Cons.IH[OF d i, of "offset + num"] obtain d where d:
    "slice_responses rs (offset + num) nr (acc @ [(rank, ?slice)]) = (acc @ [(rank, ?slice)]) @ d"
    "map fst d = map fst nr"
    "concat (map snd d) = take (sum_list (map snd nr)) (drop (offset + num) rs)"
    "offset + num + sum_list (map snd nr) \<le> length rs \<longrightarrow> map (\<lambda>(rank, slice). length slice) d = map snd nr"
    by blast
  let ?d = "(rank, ?slice) # d"
  have "slice_responses rs offset (x # nr) acc = acc @ ?d"
    using d(1) x fresh by (simp add: dict_set_fresh)
  moreover have "map fst ?d = map fst (x # nr)" using d(2) x by simp
  moreover have "concat (map snd ?d) = take (sum_list (map snd (x # nr))) (drop offset rs)"
    using d(3) x by (simp add: take_add add.commute)
  moreover have "offset + sum_list (map snd (x # nr)) \<le> length rs \<longrightarrow>
      map (\<lambda>(rank, slice). length slice) ?d = map snd (x # nr)"
    using d(4) x by (auto simp: add.assoc)
  ultimately show ?case by blast
qed


lemma dict_del_notin: "k \<notin> fst ` set d \<Longrightarrow> dict_del k d = d"
  by (induction d) (auto simp: dict_del_def)

lemma fst_pairs: "map fst (map (\<lambda>(rank, sp, p). (rank, p)) xs) = map fst xs"
  by (induction xs) auto

lemma snd_pairs: "concat (map snd (map (\<lambda>(rank, sp, p). (rank, p)) xs)) = concat (map (\<lambda>(rank, sp, p). p) xs)"
  by (induction xs) auto

lemma fst_lens: "map fst (map (\<lambda>(rank, request). (rank, length request)) xs) = map fst xs"
  by (induction xs) auto

lemma snd_lens:
  "map snd (map (\<lambda>(rank, request). (rank, length request)) (map (\<lambda>(rank, sp, p). (rank, p)) xs)) =
   map (\<lambda>(rank, sp, p). length p) xs"
  by (induction xs) auto

lemma sum_lens: "sum_list (map (\<lambda>(rank, sp, p). length p) xs) = length (concat (map (\<lambda>(rank, sp, p). p) xs))"
  by (induction xs) auto

lemma add_requests_dispatch:
  assumes "actor_counter s + 1 = num_actors s" "rank \<notin> fst ` set (requests s)"
    and "length (requests s) + 1 = num_actors s"
    and "(if concat (map snd (requests s @ [(rank, p)])) = [] then Some []
          else generate sp (concat (map snd (requests s @ [(rank, p)])))) = Some rs"
  shows "add_requests generate rank sp p s =
     Inr (s\<lparr>requests := [], actor_counter := 0,
            responses := Some (slice_responses rs 0
               (map (\<lambda>(rank, request). (rank, length request)) (requests s @ [(rank, p)])) []),
            generate_calls := generate_calls s @
               (if concat (map snd (requests s @ [(rank, p)])) = [] then []
                else [(sp, concat (map snd (requests s @ [(rank, p)])))])\<rparr>)"
proof -
  have ds: "dict_set rank p (requests s) = requests s @ [(rank, p)]"
    using assms(2) by (rule dict_set_fresh)
  show ?thesis
    using assms(1,3,4) unfolding add_requests_def Let_def ds
    by (auto split: if_splits)
qed


lemma get_responses_present:
  "responses s = Some d \<Longrightarrow> r \<in> fst ` set d \<Longrightarrow>
   \<exists>slice. map_of d r = Some slice \<and>
     get_responses r s = Inr (slice, s\<lparr>responses := Some (dict_del r d)\<rparr>)"
proof -
  assume a: "responses s = Some d" "r \<in> fst ` set d"
  then obtain slice where "map_of d r = Some slice"
    by (metis domD dom_map_of_conv_image_fst)
  then show ?thesis using a(1) by (simp add: get_responses_def)
qed

lemma aggregator_round_aux:
  assumes dist: "distinct (map fst (pre @ [(rank, sp, p)]))"
    and n: "length pre + 1 = num_actors s"
    and fresh: "requests s = []" "actor_counter s = 0"
    and gen: "(if concat (map (\<lambda>(rank, sp, p). p) (pre @ [(rank, sp, p)])) = [] then Some []
               else generate sp (concat (map (\<lambda>(rank, sp, p). p) (pre @ [(rank, sp, p)]))))
              = Some rs"
  shows "\<exists>s' d. register_all generate (pre @ [(rank, sp, p)]) s = Inr s' \<and>
           requests s' = [] \<and> actor_counter s' = 0 \<and> num_actors s' = num_actors s \<and>
           generate_calls s' = generate_calls s @
             (if concat (map (\<lambda>(rank, sp, p). p) (pre @ [(rank, sp, p)])) = [] then []
              else [(sp, concat (map (\<lambda>(rank, sp, p). p) (pre @ [(rank, sp, p)])))]) \<and>
           responses s' = Some d \<and> map fst d = map fst (pre @ [(rank, sp, p)]) \<and>
           concat (map snd d) =
             take (length (concat (map (\<lambda>(rank, sp, p). p) (pre @ [(rank, sp, p)])))) rs \<and>
           (length (concat (map (\<lambda>(rank, sp, p). p) (pre @ [(rank, sp, p)]))) \<le> length rs \<longrightarrow>
              map (\<lambda>(rank, slice). length slice) d =
              map (\<lambda>(rank, sp, p). length p) (pre @ [(rank, sp, p)]))"
proof -
  let ?regs = "pre @ [(rank, sp, p)]"
  let ?R = "map (\<lambda>(rank, sp, p). (rank, p)) pre"
  let ?s1 = "s\<lparr>requests := requests s @ ?R, actor_counter := actor_counter s + length pre\<rparr>"
  have d1: "distinct (map fst pre)" using dist by simp
  have pre: "register_all generate pre s = Inr ?s1"
    using d1 n fresh by (intro register_all_accumulate) simp_all
  have req1: "requests ?s1 = ?R" using fresh by simp
  have rank_fresh: "rank \<notin> fst ` set (requests ?s1)"
    unfolding req1 using dist fst_pairs[of pre] by (metis distinct.simps(2) distinct_append
        distinct_singleton fst_conv list.set_map list.simps(8,9) map_append not_distinct_conv_prefix
        disjoint_iff list.set_intros(1))
  have pairs: "requests ?s1 @ [(rank, p)] = map (\<lambda>(rank, sp, p). (rank, p)) ?regs"
    unfolding req1 by simp
  have comb: "concat (map snd (requests ?s1 @ [(rank, p)])) = concat (map (\<lambda>(rank, sp, p). p) ?regs)"
    unfolding pairs by (rule snd_pairs)
  let ?nr = "map (\<lambda>(rank, request). (rank, length request)) (requests ?s1 @ [(rank, p)])"
  have fst_nr: "map fst ?nr = map fst ?regs"
    unfolding pairs fst_lens by (rule fst_pairs)
  have snd_nr: "map snd ?nr = map (\<lambda>(rank, sp, p). length p) ?regs"
    unfolding pairs by (rule snd_lens)
  have total: "sum_list (map snd ?nr) = length (concat (map (\<lambda>(rank, sp, p). p) ?regs))"
    unfolding snd_nr by (rule sum_lens)
  have dnr: "distinct (map fst ?nr)" unfolding fst_nr by (rule dist)
  from slice_responses_shape[OF dnr, of "[]" rs 0]
  obtain d where d: "slice_responses rs 0 ?nr [] = d" "map fst d = map fst ?nr"
      "concat (map snd d) = take (sum_list (map snd ?nr)) rs"
      "sum_list (map snd ?nr) \<le> length rs \<longrightarrow> map (\<lambda>(rank, slice). length slice) d = map snd ?nr"
    by auto
  define calls where "calls =
     (if concat (map (\<lambda>(rank, sp, p). p) ?regs) = [] then []
      else [(sp, concat (map (\<lambda>(rank, sp, p). p) ?regs))])"
  let ?s' = "?s1\<lparr>requests := [], actor_counter := 0, responses := Some d,
            generate_calls := generate_calls ?s1 @ calls\<rparr>"
  have c1: "actor_counter ?s1 + 1 = num_actors ?s1" using n fresh by simp
  have l1: "length (requests ?s1) + 1 = num_actors ?s1" using n fresh by simp
  have g1: "(if concat (map snd (requests ?s1 @ [(rank, p)])) = [] then Some []
          else generate sp (concat (map snd (requests ?s1 @ [(rank, p)])))) = Some rs"
    unfolding comb by (rule gen)
  have step: "add_requests generate rank sp p ?s1 = Inr ?s'"
    using add_requests_dispatch[where s="?s1" and rank=rank and p=p and generate=generate
        and sp=sp and rs=rs, OF c1 rank_fresh l1 g1]
    unfolding comb d(1) calls_def[symmetric] .
  have run: "register_all generate ?regs s = Inr ?s'"
    using pre step by (simp add: register_all_append)
  have gc: "generate_calls ?s' = generate_calls s @ calls" by simp
  have "requests ?s' = []" "actor_counter ?s' = 0" "num_actors ?s' = num_actors s"
    "responses ?s' = Some d" by simp_all
  moreover have "map fst d = map fst ?regs" using d(2) unfolding fst_nr .
  moreover have "concat (map snd d) = take (length (concat (map (\<lambda>(rank, sp, p). p) ?regs))) rs"
    using d(3) unfolding total .
  moreover have "length (concat (map (\<lambda>(rank, sp, p). p) ?regs)) \<le> length rs \<longrightarrow>
              map (\<lambda>(rank, slice). length slice) d = map (\<lambda>(rank, sp, p). length p) ?regs"
    using d(4) unfolding snd_nr sum_lens .
  ultimately show ?thesis using run gc unfolding calls_def by blast
qed


text \<open>
  Claim C4, as the code has it. A round that starts with no pending request and takes one
  registration from each of \<open>N\<close> distinct producers ends in the \<open>N\<close>-th call: the pending
  payloads are concatenated in the order of arrival (not of producer id), the engine is
  called once with the combined payload (not at all when it is empty), and the answer is
  cut in the same order into slices of the payloads' lengths, one per producer, which
  \<^verbatim>\<open>get_responses\<close> hands out; the round's state is reset.
\<close>

theorem aggregator_round:
  assumes dist: "distinct (map fst regs)"
    and n: "length regs = num_actors s" "regs \<noteq> []"
    and fresh: "requests s = []" "actor_counter s = 0"
    and gen: "(if concat (map (\<lambda>(rank, sp, p). p) regs) = [] then Some []
               else generate (fst (snd (last regs))) (concat (map (\<lambda>(rank, sp, p). p) regs)))
              = Some rs"
  shows "\<exists>s' d. register_all generate regs s = Inr s' \<and>
           requests s' = [] \<and> actor_counter s' = 0 \<and> num_actors s' = num_actors s \<and>
           generate_calls s' = generate_calls s @
             (if concat (map (\<lambda>(rank, sp, p). p) regs) = [] then []
              else [(fst (snd (last regs)), concat (map (\<lambda>(rank, sp, p). p) regs))]) \<and>
           responses s' = Some d \<and> map fst d = map fst regs \<and>
           concat (map snd d) = take (length (concat (map (\<lambda>(rank, sp, p). p) regs))) rs \<and>
           (length (concat (map (\<lambda>(rank, sp, p). p) regs)) \<le> length rs \<longrightarrow>
              map (\<lambda>(rank, slice). length slice) d = map (\<lambda>(rank, sp, p). length p) regs) \<and>
           (\<forall>rank\<in>set (map fst regs).
              \<exists>slice. map_of d rank = Some slice \<and>
                get_responses rank s' = Inr (slice, s'\<lparr>responses := Some (dict_del rank d)\<rparr>))"
proof -
  obtain pre lastreg where regs: "regs = pre @ [lastreg]"
    using n(2) by (metis rev_exhaust)
  obtain rank sp p where lastreg: "lastreg = (rank, sp, p)" by (cases lastreg)
  have regs': "regs = pre @ [(rank, sp, p)]" using regs lastreg by simp
  have last: "fst (snd (last regs)) = sp" using regs' by simp
  have n': "length pre + 1 = num_actors s" using n(1) regs' by simp
  from aggregator_round_aux[where generate=generate and pre=pre and rank=rank and sp=sp and p=p
      and s=s and rs=rs, OF dist[unfolded regs'] n' fresh gen[unfolded last, unfolded regs']]
  obtain s' d where r: "register_all generate regs s = Inr s'"
      "requests s' = []" "actor_counter s' = 0" "num_actors s' = num_actors s"
      "generate_calls s' = generate_calls s @
             (if concat (map (\<lambda>(rank, sp, p). p) regs) = [] then []
              else [(sp, concat (map (\<lambda>(rank, sp, p). p) regs))])"
      "responses s' = Some d" "map fst d = map fst regs"
      "concat (map snd d) = take (length (concat (map (\<lambda>(rank, sp, p). p) regs))) rs"
      "length (concat (map (\<lambda>(rank, sp, p). p) regs)) \<le> length rs \<longrightarrow>
              map (\<lambda>(rank, slice). length slice) d = map (\<lambda>(rank, sp, p). length p) regs"
    unfolding regs'[symmetric] by blast
  have "\<exists>slice. map_of d k = Some slice \<and>
          get_responses k s' = Inr (slice, s'\<lparr>responses := Some (dict_del k d)\<rparr>)"
    if "k \<in> set (map fst regs)" for k
  proof -
    have "k \<in> fst ` set d" using that r(7) by (metis list.set_map)
    then show ?thesis using r(6) by (rule get_responses_present[rotated])
  qed
  then show ?thesis using r unfolding last by blast
qed

theorem aggregator_round_witness:
  "distinct (map fst [(1, (), [10]), (0 :: nat, (), [20 :: nat])]) \<and>
   (\<exists>s' d. register_all (\<lambda>sp xs. Some xs) [(1, (), [10]), (0, (), [20 :: nat])] (init_actor 2)
        = Inr s' \<and>
      generate_calls s' = [((), [10, 20])] \<and> responses s' = Some d \<and>
      map fst d = [1, 0] \<and> concat (map snd d) = [10, 20] \<and>
      map (\<lambda>(rank, slice). length slice) d = [1, 1])"
proof -
  let ?regs = "[(1, (), [10]), (0 :: nat, (), [20 :: nat])]"
  let ?s = "init_actor 2 :: (unit, nat, nat) llm_ray_actor"
  have h: "distinct (map fst ?regs)" "length ?regs = num_actors ?s" "?regs \<noteq> []"
    "requests ?s = []" "actor_counter ?s = 0"
    by (simp_all add: init_actor_def)
  have g: "(if concat (map (\<lambda>(rank, sp, p). p) ?regs) = [] then Some []
               else (\<lambda>sp xs. Some xs) (fst (snd (last ?regs))) (concat (map (\<lambda>(rank, sp, p). p) ?regs)))
              = Some [10, 20]"
    by simp
  from aggregator_round[where generate="\<lambda>sp xs. Some xs" and regs="?regs" and s="?s"
      and rs="[10, 20]", OF h g] obtain s' d where
    "register_all (\<lambda>sp xs. Some xs) ?regs ?s = Inr s'"
    "generate_calls s' = generate_calls ?s @
             (if concat (map (\<lambda>(rank, sp, p). p) ?regs) = [] then []
              else [(fst (snd (last ?regs)), concat (map (\<lambda>(rank, sp, p). p) ?regs))])"
    "responses s' = Some d" "map fst d = map fst ?regs"
    "concat (map snd d) = take (length (concat (map (\<lambda>(rank, sp, p). p) ?regs))) [10, 20]"
    "length (concat (map (\<lambda>(rank, sp, p). p) ?regs)) \<le> length [10 :: nat, 20] \<longrightarrow>
              map (\<lambda>(rank, slice). length slice) d = map (\<lambda>(rank, sp, p). length p) ?regs"
    by blast
  then have "register_all (\<lambda>sp xs. Some xs) ?regs ?s = Inr s' \<and>
      generate_calls s' = [((), [10, 20])] \<and> responses s' = Some d \<and>
      map fst d = [1, 0] \<and> concat (map snd d) = [10, 20] \<and>
      map (\<lambda>(rank, slice). length slice) d = [1, 1]"
    by (simp add: init_actor_def)
  then show ?thesis using h(1) by (intro conjI exI[of _ s'] exI[of _ d]) simp_all
qed

text \<open>
  Against claim C4 as stated: producer 1 registers before producer 0. The engine is called
  with producer 1's prompt first, and the slices taken in producer-id order do not make
  up the combined result.
\<close>

theorem aggregator_id_order_counterexample:
  "\<exists>s' r0 r1 s0 s1.
     register_all (\<lambda>sp xs. Some xs) [(1, (), [10]), (0, (), [20 :: nat])] (init_actor 2) = Inr s' \<and>
     generate_calls s' = [((), [10, 20])] \<and>
     generate_calls s' \<noteq> [((), [20, 10])] \<and>
     get_responses 0 s' = Inr (r0, s0) \<and> get_responses 1 s' = Inr (r1, s1) \<and>
     r0 @ r1 = [20, 10] \<and> r0 @ r1 \<noteq> [10, 20]"
  by (simp add: add_requests_def init_actor_def get_responses_def Let_def)


lemma dict_set_present:
  "k \<in> fst ` set d \<Longrightarrow> map fst (dict_set k v d) = map fst d"
  by (induction d) force+

lemma map_of_dict_set: "map_of (dict_set k v d) k = Some v"
  by (induction d) auto

text \<open>
  Claim C5, as the code has it. A registration is never refused when it is made: a
  producer that registers again before the dispatch overwrites its pending payload, and
  the counter goes up all the same. \<^verbatim>\<open>add_requests\<close> can only fail in the call that
  brings the counter to \<open>N\<close>: there the assertion \<^verbatim>\<open>len(self.requests) == self.num_actors\<close>
  fails when fewer than \<open>N\<close> distinct producers are pending. Registrations past \<open>N\<close> are
  therefore accepted: the counter is back at 0 after a dispatch. \<^verbatim>\<open>get_responses\<close> raises
  AttributeError before the first dispatch and KeyError for a rank with no stored result.
\<close>

theorem protocol_violations:
  "(rank \<in> fst ` set (requests s) \<and> actor_counter s + 1 \<noteq> num_actors s \<longrightarrow>
      add_requests generate rank sp p s =
        Inr (s\<lparr>requests := dict_set rank p (requests s), actor_counter := actor_counter s + 1\<rparr>) \<and>
      map fst (dict_set rank p (requests s)) = map fst (requests s) \<and>
      map_of (dict_set rank p (requests s)) rank = Some p) \<and>
   (actor_counter s + 1 = num_actors s \<and> length (dict_set rank p (requests s)) \<noteq> num_actors s \<longrightarrow>
      add_requests generate rank sp p s = Inl AssertionError) \<and>
   (\<forall>e. add_requests generate rank sp p s = Inl e \<longrightarrow> actor_counter s + 1 = num_actors s) \<and>
   (responses s = None \<longrightarrow> get_responses rank s = Inl AttributeError) \<and>
   (\<forall>d. responses s = Some d \<and> rank \<notin> fst ` set d \<longrightarrow>
      get_responses rank s = Inl (RankKeyError rank))"
proof (intro conjI impI allI)
  assume a: "rank \<in> fst ` set (requests s) \<and> actor_counter s + 1 \<noteq> num_actors s"
  then show "add_requests generate rank sp p s =
        Inr (s\<lparr>requests := dict_set rank p (requests s), actor_counter := actor_counter s + 1\<rparr>)"
    by (simp add: add_requests_def Let_def)
  show "map fst (dict_set rank p (requests s)) = map fst (requests s)"
    using a by (simp add: dict_set_present)
  show "map_of (dict_set rank p (requests s)) rank = Some p"
    by (rule map_of_dict_set)
next
  assume "actor_counter s + 1 = num_actors s \<and>
    length (dict_set rank p (requests s)) \<noteq> num_actors s"
  then show "add_requests generate rank sp p s = Inl AssertionError"
    by (simp add: add_requests_def Let_def)
next
  fix e
  assume "add_requests generate rank sp p s = Inl e"
  then show "actor_counter s + 1 = num_actors s"
    by (simp add: add_requests_def Let_def split: if_splits)
next
  assume "responses s = None"
  then show "get_responses rank s = Inl AttributeError"
    by (simp add: get_responses_def)
next
  fix d
  assume "responses s = Some d \<and> rank \<notin> fst ` set d"
  then have "responses s = Some d" "map_of d rank = None"
    by (simp_all add: map_of_eq_None_iff)
  then show "get_responses rank s = Inl (RankKeyError rank)"
    by (simp add: get_responses_def)
qed

theorem protocol_violations_witness:
  "add_requests (\<lambda>sp xs. Some xs) 0 () [2 :: nat]
     \<lparr>num_actors = 3, actor_counter = 1, requests = [(0, [1])], responses = None,
      generate_calls = []\<rparr> =
     Inr \<lparr>num_actors = 3, actor_counter = 2, requests = [(0, [2])], responses = None,
          generate_calls = []\<rparr> \<and>
   add_requests (\<lambda>sp xs. Some xs) 1 () [3 :: nat]
     \<lparr>num_actors = 3, actor_counter = 2, requests = [(0, [2])], responses = None,
      generate_calls = []\<rparr> = Inl AssertionError \<and>
   get_responses 0 (init_actor 3 :: (unit, nat, nat) llm_ray_actor) = Inl AttributeError \<and>
   get_responses 5
     (\<lparr>num_actors = 1, actor_counter = 0, requests = [], responses = Some [(0, [7])],
       generate_calls = [((), [1 :: nat])]\<rparr> :: (unit, nat, nat) llm_ray_actor)
     = Inl (RankKeyError 5)"
proof -
  let ?g = "\<lambda>(sp :: unit) (xs :: nat list). Some xs"
  let ?s1 = "\<lparr>num_actors = 3, actor_counter = 1, requests = [(0, [1 :: nat])],
      responses = None :: (nat \<times> nat list) list option,
      generate_calls = [] :: (unit \<times> nat list) list\<rparr>"
  let ?s2 = "\<lparr>num_actors = 3, actor_counter = 2, requests = [(0, [2 :: nat])],
      responses = None :: (nat \<times> nat list) list option,
      generate_calls = [] :: (unit \<times> nat list) list\<rparr>"
  let ?s3 = "\<lparr>num_actors = 1, actor_counter = 0, requests = [] :: (nat \<times> nat list) list,
      responses = Some [(0 :: nat, [7 :: nat])], generate_calls = [((), [1 :: nat])]\<rparr>"
  have a: "add_requests ?g 0 () [2] ?s1 = Inr ?s2"
    using protocol_violations[where s="?s1" and rank=0 and p="[2]" and generate="?g" and sp="()"]
    by simp
  have b: "add_requests ?g 1 () [3] ?s2 = Inl AssertionError"
    using protocol_violations[where s="?s2" and rank=1 and p="[3]" and generate="?g" and sp="()"]
    by simp
  have c: "get_responses 0 (init_actor 3 :: (unit, nat, nat) llm_ray_actor) = Inl AttributeError"
    using protocol_violations[where s="init_actor 3 :: (unit, nat, nat) llm_ray_actor" and rank=0]
    by (simp add: init_actor_def)
  have d: "get_responses 5 ?s3 = Inl (RankKeyError 5)"
    using protocol_violations[where s="?s3" and rank=5]
    by simp
  show ?thesis using a b c d by simp
qed

text \<open>
  Against claim C5 as stated: with three expected producers, producer 0 registers twice
  and the second call rets normally, its first payload gone; with one expected
  producer, two registrations in a row are both accepted and both dispatched.
\<close>

theorem protocol_violations_counterexample:
  "register_all (\<lambda>sp xs. Some xs) [(0, (), [1]), (0, (), [2 :: nat])] (init_actor 3) =
     Inr \<lparr>num_actors = 3, actor_counter = 2, requests = [(0, [2])], responses = None,
          generate_calls = []\<rparr> \<and>
   register_all (\<lambda>sp xs. Some xs) [(0, (), [1]), (1, (), [2 :: nat])] (init_actor 1) =
     Inr \<lparr>num_actors = 1, actor_counter = 0, requests = [], responses = Some [(1, [2])],
          generate_calls = [((), [1]), ((), [2])]\<rparr>"
  by (simp add: add_requests_def init_actor_def Let_def)

subsection \<open>The merge of experiences\<close>

lemma conditional_cat_None [simp]:
  "conditional_cat PNone y = Inr PNone" "conditional_cat x PNone = Inr PNone"
  by (simp_all add: conditional_cat_def)

lemma conditional_cat_tensors:
  "conditional_cat (PTensor x) (PTensor y) =
     (case cat0 x y of Inl e \<Rightarrow> Inl e | Inr t \<Rightarrow> Inr (PTensor t))"
  by (simp add: conditional_cat_def)

lemma conditional_cat_py_add:
  "x \<noteq> PNone \<Longrightarrow> y \<noteq> PNone \<Longrightarrow> \<forall>t. x \<noteq> PTensor t \<Longrightarrow> conditional_cat x y = py_add x y"
  by (cases x) (simp_all add: conditional_cat_def)

lemma cat0_batch_size: "cat0 x y = Inr z \<Longrightarrow> batch_size z = batch_size x + batch_size y"
  by (cases "shape x"; cases "shape y")
     (auto simp: cat0_def batch_size_def split: if_splits)

lemma cat0_data:
  assumes "cat0 x y = Inr z" "wf_tensor x" "wf_tensor y"
  shows "data z = data x @ data y \<and> wf_tensor z"
proof (cases "shape x = [0] \<or> shape y = [0]")
  case True
  then show ?thesis using assms by (auto simp: cat0_def wf_tensor_def split: if_splits)
next
  case False
  then obtain hx tx hy where s: "shape x = hx # tx" "shape y = hy # tx"
    and z: "z = \<lparr>shape = (hx + hy) # tx, data = data x @ data y\<rparr>"
    using assms(1) by (cases "shape x"; cases "shape y") (auto simp: cat0_def split: if_splits)
  then show ?thesis using assms(2,3) by (simp add: wf_tensor_def algebra_simps)
qed

lemma experience_add_parts:
  assumes "experience_add a b = Inr c"
  shows "cat_dict_loop (map fst (info a)) (info a) (info b) [] = Inr (info c)"
    and "conditional_cat (sequences a) (sequences b) = Inr (sequences c)"
    and "conditional_cat (action_log_probs a) (action_log_probs b) = Inr (action_log_probs c)"
    and "conditional_cat (values a) (values b) = Inr (values c)"
    and "conditional_cat (returns a) (returns b) = Inr (returns c)"
    and "conditional_cat (advantages a) (advantages b) = Inr (advantages c)"
    and "conditional_cat (attention_mask a) (attention_mask b) = Inr (attention_mask c)"
    and "conditional_cat (action_mask a) (action_mask b) = Inr (action_mask c)"
    and "conditional_cat (kl a) (kl b) = Inr (kl c)"
    and "conditional_cat (ref_log_probs a) (ref_log_probs b) = Inr (ref_log_probs c)"
  using assms unfolding experience_add_def bindE_def
  by (auto split: sum.splits)

lemma experience_add_field:
  "experience_add a b = Inr c \<Longrightarrow> f \<in> set tensor_fields \<Longrightarrow>
   conditional_cat (f a) (f b) = Inr (f c)"
  using experience_add_parts[of a b c] by (auto simp: tensor_fields_def)


lemma map_of_dict_set_other: "k' \<noteq> k \<Longrightarrow> map_of (dict_set k v d) k' = map_of d k'"
  by (induction d) auto

lemma cat_dict_loop_lookup:
  "cat_dict_loop ks a b acc = Inr d \<Longrightarrow>
   (\<forall>k\<in>set ks. \<exists>x y v. map_of a k = Some x \<and> map_of b k = Some y \<and>
       conditional_cat x y = Inr v \<and> map_of d k = Some v) \<and>
   (\<forall>k. k \<notin> set ks \<longrightarrow> map_of d k = map_of acc k)"
proof (induction ks arbitrary: acc)
  case Nil
  then show ?case by simp
next
  case (Cons k ks)
  from Cons.prems obtain x y v where s:
    "map_of a k = Some x" "map_of b k = Some y" "conditional_cat x y = Inr v"
    "cat_dict_loop ks a b (dict_set k v acc) = Inr d"
    by (auto split: option.splits sum.splits)
  note ih = Cons.IH[OF s(4)]
  have "\<exists>x y v. map_of a k' = Some x \<and> map_of b k' = Some y \<and>
       conditional_cat x y = Inr v \<and> map_of d k' = Some v" if "k' \<in> set (k # ks)" for k'
  proof (cases "k' \<in> set ks")
    case True
    then show ?thesis using ih by blast
  next
    case False
    then have "k' = k" using that by simp
    moreover have "map_of d k = Some v" using ih False \<open>k' = k\<close> by (simp add: map_of_dict_set)
    ultimately show ?thesis using s by blast
  qed
  moreover have "map_of d k' = map_of acc k'" if "k' \<notin> set (k # ks)" for k'
    using that ih by (simp add: map_of_dict_set_other)
  ultimately show ?case by blast
qed


lemma compatible_ok: "compatible x y \<Longrightarrow> \<exists>v. conditional_cat x y = Inr v"
  by (cases x; cases y) (auto simp: conditional_cat_def cat0_def)

lemma cat_dict_loop_ok:
  "\<forall>k\<in>set ks. \<exists>x y. map_of a k = Some x \<and> map_of b k = Some y \<and> compatible x y \<Longrightarrow>
   \<exists>d. cat_dict_loop ks a b acc = Inr d"
proof (induction ks arbitrary: acc)
  case Nil
  then show ?case by simp
next
  case (Cons k ks)
  then obtain x y where xy: "map_of a k = Some x" "map_of b k = Some y" "compatible x y"
    by auto
  then obtain v where v: "conditional_cat x y = Inr v" using compatible_ok by blast
  have "\<exists>d. cat_dict_loop ks a b (dict_set k v acc) = Inr d"
    using Cons.prems by (intro Cons.IH) simp
  then show ?case using xy v by simp
qed

lemma dict_compatible_ok:
  assumes "dict_compatible a b"
  shows "\<exists>d. cat_dict_loop (map fst a) a b [] = Inr d"
proof (rule cat_dict_loop_ok, rule ballI)
  fix k assume "k \<in> set (map fst a)"
  then have "case map_of a k of
               None \<Rightarrow> False
             | Some x \<Rightarrow> (case map_of b k of None \<Rightarrow> False | Some y \<Rightarrow> compatible x y)"
    using assms unfolding dict_compatible_def list_all_iff by blast
  then show "\<exists>x y. map_of a k = Some x \<and> map_of b k = Some y \<and> compatible x y"
    by (cases "map_of a k"; cases "map_of b k") simp_all
qed

lemma mergeable_ok:
  assumes "mergeable a b"
  shows "\<exists>c. experience_add a b = Inr c"
proof -
  have f: "\<exists>v. conditional_cat (f a) (f b) = Inr v" if "f \<in> set tensor_fields" for f
    using assms that compatible_ok unfolding mergeable_def list_all_iff by blast
  obtain i where i: "cat_dict_loop (map fst (info a)) (info a) (info b) [] = Inr i"
    using assms dict_compatible_ok unfolding mergeable_def by blast
  obtain va where va: "visual_inputs a = Some va"
    using assms unfolding mergeable_def by (auto split: option.splits)
  have "\<exists>vi. (case visual_inputs b of
                   None \<Rightarrow> (if va = [] then Inr [] else Inl TypeError)
                 | Some vo \<Rightarrow> cat_dict_loop (map fst va) va vo []) = Inr vi"
    using assms va dict_compatible_ok unfolding mergeable_def by (auto split: option.splits)
  then obtain vi where vi: "(case visual_inputs b of
                   None \<Rightarrow> (if va = [] then Inr [] else Inl TypeError)
                 | Some vo \<Rightarrow> cat_dict_loop (map fst va) va vo []) = Inr vi" by blast
  obtain v1 where v1: "conditional_cat (sequences a) (sequences b) = Inr v1"
    using f[of sequences] by (auto simp: tensor_fields_def)
  obtain v2 where v2: "conditional_cat (action_log_probs a) (action_log_probs b) = Inr v2"
    using f[of action_log_probs] by (auto simp: tensor_fields_def)
  obtain v3 where v3: "conditional_cat (values a) (values b) = Inr v3"
    using f[of "values"] by (auto simp: tensor_fields_def)
  obtain v4 where v4: "conditional_cat (returns a) (returns b) = Inr v4"
    using f[of returns] by (auto simp: tensor_fields_def)
  obtain v5 where v5: "conditional_cat (advantages a) (advantages b) = Inr v5"
    using f[of advantages] by (auto simp: tensor_fields_def)
  obtain v6 where v6: "conditional_cat (attention_mask a) (attention_mask b) = Inr v6"
    using f[of attention_mask] by (auto simp: tensor_fields_def)
  obtain v7 where v7: "conditional_cat (action_mask a) (action_mask b) = Inr v7"
    using f[of action_mask] by (auto simp: tensor_fields_def)
  obtain v8 where v8: "conditional_cat (kl a) (kl b) = Inr v8"
    using f[of kl] by (auto simp: tensor_fields_def)
  obtain v9 where v9: "conditional_cat (ref_log_probs a) (ref_log_probs b) = Inr v9"
    using f[of ref_log_probs] by (auto simp: tensor_fields_def)
  show ?thesis
    unfolding experience_add_def bindE_def
    by (simp add: i va vi v1 v2 v3 v4 v5 v6 v7 v8 v9)
qed


text \<open>
  Claim C9. When \<^verbatim>\<open>__add__\<close> returns, every field that holds a tensor in both operands
  holds their concatenation along the first dimension in the result, so that the batch
  sizes add up (2 and 3 give 5); it does return on operands with compatible fields and
  dicts. The integer 0 is neutral: \<^verbatim>\<open>__radd__(0)\<close> returns the experience itself, and so
  does \<^verbatim>\<open>sum\<close> over the one-element list.
\<close>

theorem experience_merge_batch:
  "(mergeable a b \<longrightarrow> (\<exists>c. experience_add a b = Inr c)) \<and>
   (\<forall>c. experience_add a b = Inr c \<longrightarrow>
      (\<forall>f\<in>set tensor_fields. \<forall>x y. f a = PTensor x \<and> f b = PTensor y \<longrightarrow>
         (\<exists>z. f c = PTensor z \<and> cat0 x y = Inr z \<and>
              batch_size z = batch_size x + batch_size y \<and>
              (wf_tensor x \<and> wf_tensor y \<longrightarrow> wf_tensor z \<and> data z = data x @ data y)))) \<and>
   experience_radd a (OInt 0) = Inr a \<and> py_sum [a] = Inr (OExp a)"
proof (intro conjI impI allI ballI)
  assume "mergeable a b"
  then show "\<exists>c. experience_add a b = Inr c" by (rule mergeable_ok)
next
  fix c f x y
  assume c: "experience_add a b = Inr c" and f: "f \<in> set tensor_fields"
    and xy: "f a = PTensor x \<and> f b = PTensor y"
  have "conditional_cat (PTensor x) (PTensor y) = Inr (f c)"
    using experience_add_field[OF c f] xy by simp
  then obtain z where z: "cat0 x y = Inr z" "f c = PTensor z"
    by (auto simp: conditional_cat_tensors split: sum.splits)
  then show "\<exists>z. f c = PTensor z \<and> cat0 x y = Inr z \<and>
              batch_size z = batch_size x + batch_size y \<and>
              (wf_tensor x \<and> wf_tensor y \<longrightarrow> wf_tensor z \<and> data z = data x @ data y)"
    using cat0_batch_size[OF z(1)] cat0_data[OF z(1)] by blast
next
  show "experience_radd a (OInt 0) = Inr a" by (simp add: experience_radd_def)
  show "py_sum [a] = Inr (OExp a)" by (simp add: py_sum_def experience_radd_def)
qed

theorem experience_merge_batch_witness:
  "mergeable
     \<lparr>sequences = PTensor \<lparr>shape = [2, 2], data = [1, 2, 3, 4]\<rparr>, action_log_probs = PNone,
      values = PNone, returns = PNone, advantages = PNone, attention_mask = PNone,
      action_mask = PNone, info = [(''num_actions'', PInt 4)], kl = PNone,
      ref_log_probs = PNone, visual_inputs = Some []\<rparr>
     \<lparr>sequences = PTensor \<lparr>shape = [3, 2], data = [5, 6, 7, 8, 9, 10]\<rparr>, action_log_probs = PNone,
      values = PNone, returns = PNone, advantages = PNone, attention_mask = PNone,
      action_mask = PNone, info = [(''num_actions'', PInt 4)], kl = PNone,
      ref_log_probs = PNone, visual_inputs = Some []\<rparr> \<and>
   (\<exists>c z. experience_add
       \<lparr>sequences = PTensor \<lparr>shape = [2, 2], data = [1, 2, 3, 4]\<rparr>, action_log_probs = PNone,
        values = PNone, returns = PNone, advantages = PNone, attention_mask = PNone,
        action_mask = PNone, info = [(''num_actions'', PInt 4)], kl = PNone,
        ref_log_probs = PNone, visual_inputs = Some []\<rparr>
       \<lparr>sequences = PTensor \<lparr>shape = [3, 2], data = [5, 6, 7, 8, 9, 10]\<rparr>, action_log_probs = PNone,
        values = PNone, returns = PNone, advantages = PNone, attention_mask = PNone,
        action_mask = PNone, info = [(''num_actions'', PInt 4)], kl = PNone,
        ref_log_probs = PNone, visual_inputs = Some []\<rparr> = Inr c \<and>
      sequences c = PTensor z \<and> batch_size z = 5 \<and>
      data z = [1, 2, 3, 4, 5, 6, 7, 8, 9, 10])"
proof -
  let ?x = "\<lparr>shape = [2, 2], data = [1, 2, 3, 4]\<rparr>"
  let ?y = "\<lparr>shape = [3, 2], data = [5, 6, 7, 8, 9, 10]\<rparr>"
  let ?a = "\<lparr>sequences = PTensor ?x, action_log_probs = PNone,
      values = PNone, returns = PNone, advantages = PNone, attention_mask = PNone,
      action_mask = PNone, info = [(''num_actions'', PInt 4)], kl = PNone,
      ref_log_probs = PNone, visual_inputs = Some []\<rparr>"
  let ?b = "\<lparr>sequences = PTensor ?y, action_log_probs = PNone,
      values = PNone, returns = PNone, advantages = PNone, attention_mask = PNone,
      action_mask = PNone, info = [(''num_actions'', PInt 4)], kl = PNone,
      ref_log_probs = PNone, visual_inputs = Some []\<rparr>"
  note t = experience_merge_batch[of ?a ?b]
  have m: "mergeable ?a ?b"
    by (simp add: mergeable_def tensor_fields_def dict_compatible_def)
  then obtain c where c: "experience_add ?a ?b = Inr c" using t by blast
  have f: "sequences \<in> set tensor_fields" by (simp add: tensor_fields_def)
  have wf: "wf_tensor ?x" "wf_tensor ?y" by (simp_all add: wf_tensor_def)
  from t c f obtain z where z: "sequences c = PTensor z"
      "batch_size z = batch_size ?x + batch_size ?y"
      "wf_tensor ?x \<and> wf_tensor ?y \<longrightarrow> wf_tensor z \<and> data z = data ?x @ data ?y"
    by (metis experience.select_convs(1))
  have "batch_size z = 5" using z(2) by (simp add: batch_size_def)
  moreover have "data z = [1, 2, 3, 4, 5, 6, 7, 8, 9, 10]" using z(3) wf by simp
  ultimately show ?thesis using m c z(1) by blast
qed

text \<open>
  Claim C10. An \<^verbatim>\<open>info\<close> entry present in both operands is combined by
  \<^verbatim>\<open>conditional_cat\<close>: two integers are added (two operands with \<^verbatim>\<open>num_actions\<close> \<open>A\<close> give
  \<open>2 * A\<close>), two lists are concatenated, two tensors are concatenated along the first
  dimension (the batch sizes add up and the entries of the second follow those of the
  first), and any left value that is neither \<^verbatim>\<open>None\<close> nor a tensor goes through
  Python's \<^verbatim>\<open>+\<close>.
\<close>

theorem info_merge:
  assumes "experience_add a b = Inr c"
    and "map_of (info a) k = Some x" "map_of (info b) k = Some y"
  shows "(\<forall>i j. x = PInt i \<and> y = PInt j \<longrightarrow> map_of (info c) k = Some (PInt (i + j))) \<and>
         (\<forall>A. x = PInt A \<and> y = PInt A \<longrightarrow> map_of (info c) k = Some (PInt (2 * A))) \<and>
         (\<forall>xs ys. x = PList xs \<and> y = PList ys \<longrightarrow> map_of (info c) k = Some (PList (xs @ ys))) \<and>
         (\<forall>s t. x = PTensor s \<and> y = PTensor t \<longrightarrow>
            (\<exists>u. cat0 s t = Inr u \<and> map_of (info c) k = Some (PTensor u) \<and>
                 batch_size u = batch_size s + batch_size t \<and>
                 (wf_tensor s \<and> wf_tensor t \<longrightarrow> wf_tensor u \<and> data u = data s @ data t))) \<and>
         (x \<noteq> PNone \<and> y \<noteq> PNone \<and> (\<forall>t. x \<noteq> PTensor t) \<longrightarrow>
            (\<exists>v. py_add x y = Inr v \<and> map_of (info c) k = Some v))"
proof -
  have loop: "cat_dict_loop (map fst (info a)) (info a) (info b) [] = Inr (info c)"
    using assms(1) by (rule experience_add_parts)
  have "k \<in> set (map fst (info a))"
    using assms(2) by (metis map_of_eq_None_iff option.distinct(1) set_map)
  with cat_dict_loop_lookup[OF loop] assms(2,3)
  obtain v where v: "conditional_cat x y = Inr v" "map_of (info c) k = Some v"
    by fastforce
  show ?thesis
  proof (intro conjI allI impI)
    fix i j assume "x = PInt i \<and> y = PInt j"
    then show "map_of (info c) k = Some (PInt (i + j))"
      using v by (simp add: conditional_cat_def)
  next
    fix A assume "x = PInt A \<and> y = PInt A"
    then show "map_of (info c) k = Some (PInt (2 * A))"
      using v by (simp add: conditional_cat_def)
  next
    fix xs ys assume "x = PList xs \<and> y = PList ys"
    then show "map_of (info c) k = Some (PList (xs @ ys))"
      using v by (simp add: conditional_cat_def)
  next
    fix s t assume "x = PTensor s \<and> y = PTensor t"
    then obtain u where u: "cat0 s t = Inr u" "map_of (info c) k = Some (PTensor u)"
      using v by (auto simp: conditional_cat_tensors split: sum.splits)
    then show "\<exists>u. cat0 s t = Inr u \<and> map_of (info c) k = Some (PTensor u) \<and>
                 batch_size u = batch_size s + batch_size t \<and>
                 (wf_tensor s \<and> wf_tensor t \<longrightarrow> wf_tensor u \<and> data u = data s @ data t)"
      using cat0_batch_size[OF u(1)] cat0_data[OF u(1)] by blast
  next
    assume "x \<noteq> PNone \<and> y \<noteq> PNone \<and> (\<forall>t. x \<noteq> PTensor t)"
    then show "\<exists>v. py_add x y = Inr v \<and> map_of (info c) k = Some v"
      using v conditional_cat_py_add[of x y] by simp
  qed
qed

theorem info_merge_witness:
  "\<exists>c u. experience_add
       \<lparr>sequences = PNone, action_log_probs = PNone, values = PNone, returns = PNone,
        advantages = PNone, attention_mask = PNone, action_mask = PNone,
        info = [(''num_actions'', PInt 4), (''dump/rewards'', PList [PFloat 1]),
                (''reward'', PTensor \<lparr>shape = [2], data = [1, 0]\<rparr>)],
        kl = PNone, ref_log_probs = PNone, visual_inputs = Some []\<rparr>
       \<lparr>sequences = PNone, action_log_probs = PNone, values = PNone, returns = PNone,
        advantages = PNone, attention_mask = PNone, action_mask = PNone,
        info = [(''num_actions'', PInt 4), (''dump/rewards'', PList [PFloat 0]),
                (''reward'', PTensor \<lparr>shape = [1], data = [1 / 2]\<rparr>)],
        kl = PNone, ref_log_probs = PNone, visual_inputs = Some []\<rparr> = Inr c \<and>
      map_of (info c) ''num_actions'' = Some (PInt 8) \<and>
      map_of (info c) ''dump/rewards'' = Some (PList [PFloat 1, PFloat 0]) \<and>
      map_of (info c) ''reward'' = Some (PTensor u) \<and>
      batch_size u = 3 \<and> data u = [1, 0, 1 / 2]"
proof -
  let ?s = "\<lparr>shape = [2], data = [1, 0]\<rparr>"
  let ?t = "\<lparr>shape = [1], data = [1 / 2]\<rparr>"
  let ?a = "\<lparr>sequences = PNone, action_log_probs = PNone, values = PNone, returns = PNone,
        advantages = PNone, attention_mask = PNone, action_mask = PNone,
        info = [(''num_actions'', PInt 4), (''dump/rewards'', PList [PFloat 1]),
                (''reward'', PTensor \<lparr>shape = [2], data = [1, 0]\<rparr>)],
        kl = PNone, ref_log_probs = PNone, visual_inputs = Some []\<rparr>"
  let ?b = "\<lparr>sequences = PNone, action_log_probs = PNone, values = PNone, returns = PNone,
        advantages = PNone, attention_mask = PNone, action_mask = PNone,
        info = [(''num_actions'', PInt 4), (''dump/rewards'', PList [PFloat 0]),
                (''reward'', PTensor \<lparr>shape = [1], data = [1 / 2]\<rparr>)],
        kl = PNone, ref_log_probs = PNone, visual_inputs = Some []\<rparr>"
  have "mergeable ?a ?b"
    by (simp add: mergeable_def tensor_fields_def dict_compatible_def)
  then obtain c where c: "experience_add ?a ?b = Inr c" using mergeable_ok by blast
  have n: "map_of (info c) ''num_actions'' = Some (PInt 8)"
    using info_merge[OF c, of "''num_actions''" "PInt 4" "PInt 4"] by simp
  have d: "map_of (info c) ''dump/rewards'' = Some (PList [PFloat 1, PFloat 0])"
    using info_merge[OF c, of "''dump/rewards''" "PList [PFloat 1]" "PList [PFloat 0]"] by simp
  have wf: "wf_tensor ?s" "wf_tensor ?t" by (simp_all add: wf_tensor_def)
  have "\<exists>u. map_of (info c) ''reward'' = Some (PTensor u) \<and>
            batch_size u = batch_size ?s + batch_size ?t \<and>
            (wf_tensor ?s \<and> wf_tensor ?t \<longrightarrow> wf_tensor u \<and> data u = data ?s @ data ?t)"
    using info_merge[OF c, of "''reward''" "PTensor ?s" "PTensor ?t",
        THEN conjunct2, THEN conjunct2, THEN conjunct2, THEN conjunct1, rule_format,
        of ?s ?t]
    by auto
  then obtain u where u: "map_of (info c) ''reward'' = Some (PTensor u)"
      "batch_size u = batch_size ?s + batch_size ?t"
      "wf_tensor ?s \<and> wf_tensor ?t \<longrightarrow> wf_tensor u \<and> data u = data ?s @ data ?t"
    by blast
  have "batch_size u = 3" using u(2) by (simp add: batch_size_def)
  moreover have "data u = [1, 0, 1 / 2]" using u(3) wf by simp
  ultimately show ?thesis using c n d u(1) by blast
qed





subsection \<open>Leave-one-out reward shaping\<close>

lemma mapE_ok: "\<forall>x\<in>set xs. f x = Inr (g x) \<Longrightarrow> mapE f xs = Inr (map g xs)"
  by (induction xs) simp_all

lemma tensor_eta: "\<lparr>shape = shape t, data = data t\<rparr> = (t :: tensor)"
  by simp

lemma cat0_flat:
  assumes "shape t = [length (data t)]" "shape u = [length (data u)]"
  shows "cat0 t u = Inr \<lparr>shape = [length (data t @ data u)], data = data t @ data u\<rparr>"
proof -
  have "cat0 t u = Inr u" if "data t = []"
    using that assms by (simp add: cat0_def)
  moreover have "cat0 t u = Inr t" if "data t \<noteq> []" "data u = []"
    using that assms by (simp add: cat0_def)
  moreover have "cat0 t u = Inr \<lparr>shape = [length (data t) + length (data u)], data = data t @ data u\<rparr>"
    if "data t \<noteq> []" "data u \<noteq> []"
    using that assms by (simp add: cat0_def)
  moreover have "u = \<lparr>shape = [length (data u)], data = data u\<rparr>"
    "t = \<lparr>shape = [length (data t)], data = data t\<rparr>"
    using assms tensor_eta[of u] tensor_eta[of t] by simp_all
  ultimately show ?thesis by (cases "data t = []"; cases "data u = []") simp_all
qed

lemma cat_list_flat:
  "ts \<noteq> [] \<Longrightarrow> \<forall>t\<in>set ts. shape t = [length (data t)] \<Longrightarrow>
   cat_list ts = Inr \<lparr>shape = [length (concat (map data ts))], data = concat (map data ts)\<rparr>"
proof (induction ts rule: cat_list.induct)
  case 1
  then show ?case by simp
next
  case (2 t)
  then show ?case using tensor_eta[of t] by simp
next
  case (3 t u ts)
  let ?v = "\<lparr>shape = [length (data t @ data u)], data = data t @ data u\<rparr>"
  have c: "cat0 t u = Inr ?v" using 3(3) by (intro cat0_flat) simp_all
  have "cat_list (?v # ts) =
      Inr \<lparr>shape = [length (concat (map data (?v # ts)))], data = concat (map data (?v # ts))\<rparr>"
    using 3(3) by (intro 3(1)[OF c]) simp_all
  then show ?case using c by simp
qed

lemma pieces_concat:
  "concat (map (\<lambda>i. take s (drop (i * s) xs)) [0..<m]) = take (m * s) xs"
proof (induction m)
  case 0
  then show ?case by simp
next
  case (Suc m)
  have "concat (map (\<lambda>i. take s (drop (i * s) xs)) [0..<Suc m]) =
        concat (map (\<lambda>i. take s (drop (i * s) xs)) [0..<m]) @ take s (drop (m * s) xs)"
    by simp
  also have "\<dots> = take (m * s) xs @ take s (drop (m * s) xs)"
    by (simp only: Suc)
  also have "\<dots> = take (m * s + s) xs"
    by (rule take_add[symmetric])
  also have "m * s + s = Suc m * s" by simp
  finally show ?case .
qed

lemma ceil_div_cover: "0 < s \<Longrightarrow> L \<le> ((L + s - 1) div s) * (s :: nat)"
proof -
  assume s: "0 < s"
  have "L + s - 1 = ((L + s - 1) div s) * s + (L + s - 1) mod s" by simp
  moreover have "(L + s - 1) mod s \<le> s - 1" using s by (simp add: Suc_leI le_diff_conv2 less_Suc_eq_le)
  ultimately show ?thesis using s by linarith
qed

lemma chunk_concat:
  "0 < k \<Longrightarrow> \<exists>cs. chunk k xs = Inr cs \<and> concat (map data cs) = xs \<and>
     (\<forall>c\<in>set cs. shape c = [length (data c)])"
proof -
  assume k: "0 < k"
  let ?s = "(length xs + k - 1) div k"
  show ?thesis
  proof (cases "?s = 0")
    case True
    have "length xs \<le> ?s * k" using k by (rule ceil_div_cover)
    then have "xs = []" using True by simp
    then show ?thesis using k True by (simp add: chunk_def Let_def)
  next
    case False
    let ?m = "(length xs + ?s - 1) div ?s"
    let ?cs = "map (\<lambda>i. \<lparr>shape = [length (take ?s (drop (i * ?s) xs))],
                               data = take ?s (drop (i * ?s) xs)\<rparr>) [0..<?m]"
    have c: "chunk k xs = Inr ?cs" using k False by (simp add: chunk_def Let_def)
    have "concat (map data ?cs) = concat (map (\<lambda>i. take ?s (drop (i * ?s) xs)) [0..<?m])"
      by (simp add: comp_def)
    also have "\<dots> = take (?m * ?s) xs"
      by (rule pieces_concat)
    finally have "concat (map data ?cs) = take (?m * ?s) xs" .
    moreover have "length xs \<le> ?m * ?s" using False by (intro ceil_div_cover) simp
    ultimately have "concat (map data ?cs) = xs" by simp
    moreover have "\<forall>c\<in>set ?cs. shape c = [length (data c)]" by auto
    ultimately show ?thesis using c by blast
  qed
qed

lemma row_sum_nth:
  assumes "i * n + n \<le> length xs"
  shows "sum_list (take n (drop (i * n) xs)) = (\<Sum>k<n. xs ! (i * n + k) :: real)"
proof -
  have len: "length (take n (drop (i * n) xs)) = n" using assms by simp
  have "sum_list (take n (drop (i * n) xs)) = (\<Sum>k = 0..<n. take n (drop (i * n) xs) ! k)"
    using sum_list_sum_nth[of "take n (drop (i * n) xs)"] len by simp
  also have "\<dots> = (\<Sum>k = 0..<n. xs ! (i * n + k))"
    using assms by (intro sum.cong) simp_all
  finally show ?thesis by (simp add: lessThan_atLeast0)
qed

lemma rloo_shaped_nth:
  assumes "length xs = P * n" "i < P" "j < n"
  shows "rloo_baseline n xs ! (i * n + j) = ((\<Sum>k<n. xs ! (i * n + k)) - xs ! (i * n + j)) / (real n - 1)"
    and "rloo_shaped n xs ! (i * n + j) =
           xs ! (i * n + j) - ((\<Sum>k<n. xs ! (i * n + k)) - xs ! (i * n + j)) / (real n - 1)"
proof -
  have lt: "i * n + j < length xs" using assms idx_lt[of i P j n] by simp
  have d: "(i * n + j) div n = i" using assms(3) by simp
  have "length xs div n = P" using assms by simp
  then have rs: "row_sums n xs ! i = sum_list (take n (drop (i * n) xs))"
    using assms(2) by (simp add: row_sums_def)
  have "Suc i * n \<le> P * n" using assms(2) by (intro mult_le_mono1) simp
  then have "i * n + n \<le> length xs" using assms(1) by simp
  then have "row_sums n xs ! i = (\<Sum>k<n. xs ! (i * n + k))"
    using rs row_sum_nth by simp
  then show b: "rloo_baseline n xs ! (i * n + j) =
      ((\<Sum>k<n. xs ! (i * n + k)) - xs ! (i * n + j)) / (real n - 1)"
    using lt d by (simp add: rloo_baseline_def)
  show "rloo_shaped n xs ! (i * n + j) =
           xs ! (i * n + j) - ((\<Sum>k<n. xs ! (i * n + k)) - xs ! (i * n + j)) / (real n - 1)"
    using lt b by (simp add: rloo_shaped_def)
qed


lemma mapE_info_get:
  "map (\<lambda>e. map_of (info e) k) es = map (\<lambda>t. Some (PTensor t)) ts \<Longrightarrow>
   mapE (\<lambda>e. info_get e k) es = Inr (map PTensor ts)"
proof (induction es arbitrary: ts)
  case Nil
  then show ?case by simp
next
  case (Cons e es)
  then obtain t ts' where ts: "ts = t # ts'" by (cases ts) auto
  then have "map_of (info e) k = Some (PTensor t)"
    "map (\<lambda>e. map_of (info e) k) es = map (\<lambda>t. Some (PTensor t)) ts'"
    using Cons.prems by simp_all
  then show ?case using Cons.IH[of ts'] ts by (simp add: info_get_def)
qed

lemma mapE_as_tensor: "mapE as_tensor (map PTensor ts) = Inr ts"
  by (induction ts) (simp_all add: as_tensor_def)

lemma flat_shape: "wf_tensor t \<Longrightarrow> length (shape t) = 1 \<Longrightarrow> shape t = [length (data t)]"
  by (cases "shape t") (simp_all add: wf_tensor_def)

lemma process_experiences_rloo:
  assumes est: "advantage_estimator args = ''rloo''"
    and n: "1 < n_samples_per_prompt args"
    and rew: "map (\<lambda>e. map_of (info e) ''reward'') experiences = map (\<lambda>t. Some (PTensor t)) ts"
    and flat: "\<forall>t\<in>set ts. wf_tensor t \<and> length (shape t) = 1"
    and ne: "experiences \<noteq> []"
    and len: "length (concat (map data ts)) = P * n_samples_per_prompt args"
  shows "\<exists>experiences' chunks.
           process_experiences args experiences = Inr (experiences', map PTensor chunks) \<and>
           length experiences' = length experiences \<and>
           concat (map data chunks) =
             rloo_shaped (n_samples_per_prompt args) (concat (map data ts))"
proof -
  let ?n = "n_samples_per_prompt args"
  let ?rs = "concat (map data ts)"
  let ?exps = "map (\<lambda>(e, t). e\<lparr>info := dict_set ''acc_info'' (PTensor (eq1_flat t)) (info e)\<rparr>)
                (zip experiences ts)"
  have l: "length ts = length experiences"
    using rew by (metis length_map)
  have tne: "ts \<noteq> []" using l ne by auto
  have 1: "mapE (\<lambda>e. info_get e ''reward'') experiences = Inr (map PTensor ts)"
    using rew by (rule mapE_info_get)
  have 2: "mapE as_tensor (map PTensor ts) = Inr ts" by (rule mapE_as_tensor)
  have 3: "cat_list ts = Inr \<lparr>shape = [length ?rs], data = ?rs\<rparr>"
    using tne flat flat_shape by (intro cat_list_flat) auto
  have 4: "reshape_rows ?n \<lparr>shape = [length ?rs], data = ?rs\<rparr> = Inr \<lparr>shape = [P, ?n], data = ?rs\<rparr>"
    using n len by (simp add: reshape_rows_def)
  have k: "0 < length ?exps" using l ne by simp
  from chunk_concat[OF k, of "rloo_shaped ?n ?rs"] obtain chunks where
    5: "chunk (length ?exps) (rloo_shaped ?n ?rs) = Inr chunks"
    and c: "concat (map data chunks) = rloo_shaped ?n ?rs" by blast
  have c5: "chunk (min (length experiences) (length ts)) (rloo_shaped ?n ?rs) = Inr chunks"
    using 5 by simp
  have "process_experiences args experiences = Inr (?exps, map PTensor chunks)"
    unfolding process_experiences_def bindE_def Let_def
    using est n by (simp add: 1 2 3 4 c5)
  moreover have "length ?exps = length experiences" using l by simp
  ultimately show ?thesis using c by blast
qed

text \<open>
  Claim C3. Under \<^verbatim>\<open>rloo\<close> with \<open>n > 1\<close> samples per prompt, on experiences whose rewards
  are flat tensors of \<open>P * n\<close> entries in all, \<^verbatim>\<open>process_experiences\<close> returns chunks that
  hold, entry \<open>(i, j)\<close> of the \<open>P \<times> n\<close> view being entry \<open>i * n + j\<close>, the reward minus the
  mean of the other rewards of its row:
  \<open>r\<^sub>i\<^sub>j - (\<Sum>\<^sub>k r\<^sub>i\<^sub>k - r\<^sub>i\<^sub>j) / (n - 1)\<close>. The group \<open>[2, 4, 6]\<close> has baseline \<open>[5, 4, 3]\<close> and
  shaped reward \<open>[-3, 0, 3]\<close>.
\<close>

theorem rloo_shaping:
  "(\<forall>args experiences ts P.
      advantage_estimator args = ''rloo'' \<and> 1 < n_samples_per_prompt args \<and>
      map (\<lambda>e. map_of (info e) ''reward'') experiences = map (\<lambda>t. Some (PTensor t)) ts \<and>
      (\<forall>t\<in>set ts. wf_tensor t \<and> length (shape t) = 1) \<and> experiences \<noteq> [] \<and>
      length (concat (map data ts)) = P * n_samples_per_prompt args \<longrightarrow>
      (\<exists>experiences' chunks.
         process_experiences args experiences = Inr (experiences', map PTensor chunks) \<and>
         length experiences' = length experiences \<and>
         length (concat (map data chunks)) = P * n_samples_per_prompt args \<and>
         (\<forall>i<P. \<forall>j<n_samples_per_prompt args.
            concat (map data chunks) ! (i * n_samples_per_prompt args + j) =
              concat (map data ts) ! (i * n_samples_per_prompt args + j) -
              ((\<Sum>k<n_samples_per_prompt args.
                  concat (map data ts) ! (i * n_samples_per_prompt args + k)) -
               concat (map data ts) ! (i * n_samples_per_prompt args + j)) /
              (real (n_samples_per_prompt args) - 1)))) \<and>
   rloo_baseline 3 [2, 4, 6] = [5, 4, 3] \<and> rloo_shaped 3 [2, 4, 6] = [- 3, 0, 3]"
proof (intro conjI allI impI)
  fix args :: config and experiences :: "experience list" and ts :: "tensor list" and P :: nat
  let ?n = "n_samples_per_prompt args"
  assume a: "advantage_estimator args = ''rloo'' \<and> 1 < ?n \<and>
      map (\<lambda>e. map_of (info e) ''reward'') experiences = map (\<lambda>t. Some (PTensor t)) ts \<and>
      (\<forall>t\<in>set ts. wf_tensor t \<and> length (shape t) = 1) \<and> experiences \<noteq> [] \<and>
      length (concat (map data ts)) = P * ?n"
  then obtain experiences' chunks where r:
    "process_experiences args experiences = Inr (experiences', map PTensor chunks)"
    "length experiences' = length experiences"
    "concat (map data chunks) = rloo_shaped ?n (concat (map data ts))"
    using process_experiences_rloo[of args experiences ts P] by blast
  have len: "length (concat (map data ts)) = P * ?n" using a by simp
  have "length (concat (map data chunks)) = P * ?n"
    using r(3) len by (simp add: rloo_shaped_def)
  moreover have "\<forall>i<P. \<forall>j<?n.
            concat (map data chunks) ! (i * ?n + j) =
              concat (map data ts) ! (i * ?n + j) -
              ((\<Sum>k<?n. concat (map data ts) ! (i * ?n + k)) -
               concat (map data ts) ! (i * ?n + j)) / (real ?n - 1)"
    unfolding r(3) using rloo_shaped_nth(2)[OF len] by blast
  ultimately show "\<exists>experiences' chunks.
         process_experiences args experiences = Inr (experiences', map PTensor chunks) \<and>
         length experiences' = length experiences \<and>
         length (concat (map data chunks)) = P * ?n \<and>
         (\<forall>i<P. \<forall>j<?n.
            concat (map data chunks) ! (i * ?n + j) =
              concat (map data ts) ! (i * ?n + j) -
              ((\<Sum>k<?n. concat (map data ts) ! (i * ?n + k)) -
               concat (map data ts) ! (i * ?n + j)) / (real ?n - 1))"
    using r(1,2) by blast
next
  have u: "[0..<3] = [0, 1, 2]" by (simp add: upt_rec)
  have rs: "row_sums 3 [2, 4, 6] = [12]" by (simp add: row_sums_def)
  show b: "rloo_baseline 3 [2, 4, 6] = [5, 4, 3]"
    by (simp add: rloo_baseline_def rs u)
  show "rloo_shaped 3 [2, 4, 6] = [- 3, 0, 3]"
    by (simp add: rloo_shaped_def b u)
qed

theorem rloo_shaping_witness:
  "\<exists>experiences' chunks.
     process_experiences
       \<lparr>advantage_estimator = ''rloo'', n_samples_per_prompt = 3, vllm_enable_sleep = False,
        packing_samples = True, ring_attn_rank = None\<rparr>
       [\<lparr>sequences = PNone, action_log_probs = PNone, values = PNone, returns = PNone,
         advantages = PNone, attention_mask = PNone, action_mask = PNone,
         info = [(''reward'', PTensor \<lparr>shape = [3], data = [2, 4, 6]\<rparr>)],
         kl = PNone, ref_log_probs = PNone, visual_inputs = Some []\<rparr>]
       = Inr (experiences', map PTensor chunks) \<and>
     length (concat (map data chunks)) = 3 \<and>
     concat (map data chunks) ! 0 = - 3 \<and> concat (map data chunks) ! 1 = 0 \<and>
     concat (map data chunks) ! 2 = 3"
proof -
  let ?args = "\<lparr>advantage_estimator = ''rloo'', n_samples_per_prompt = 3, vllm_enable_sleep = False,
        packing_samples = True, ring_attn_rank = None\<rparr>"
  let ?t = "\<lparr>shape = [3], data = [2, 4, 6]\<rparr>"
  let ?e = "\<lparr>sequences = PNone, action_log_probs = PNone, values = PNone, returns = PNone,
         advantages = PNone, attention_mask = PNone, action_mask = PNone,
         info = [(''reward'', PTensor ?t)],
         kl = PNone, ref_log_probs = PNone, visual_inputs = Some []\<rparr>"
  have h: "advantage_estimator ?args = ''rloo'' \<and> 1 < n_samples_per_prompt ?args \<and>
      map (\<lambda>e. map_of (info e) ''reward'') [?e] = map (\<lambda>t. Some (PTensor t)) [?t] \<and>
      (\<forall>t\<in>set [?t]. wf_tensor t \<and> length (shape t) = 1) \<and> [?e] \<noteq> [] \<and>
      length (concat (map data [?t])) = 1 * n_samples_per_prompt ?args"
    by (simp add: wf_tensor_def)
  from rloo_shaping[THEN conjunct1, rule_format, OF h]
  obtain experiences' chunks where r:
    "process_experiences ?args [?e] = Inr (experiences', map PTensor chunks)"
    "length (concat (map data chunks)) = 1 * n_samples_per_prompt ?args"
    "\<forall>i<1. \<forall>j<n_samples_per_prompt ?args.
            concat (map data chunks) ! (i * n_samples_per_prompt ?args + j) =
              concat (map data [?t]) ! (i * n_samples_per_prompt ?args + j) -
              ((\<Sum>k<n_samples_per_prompt ?args.
                  concat (map data [?t]) ! (i * n_samples_per_prompt ?args + k)) -
               concat (map data [?t]) ! (i * n_samples_per_prompt ?args + j)) /
              (real (n_samples_per_prompt ?args) - 1)"
    by blast
  have s: "{..<3::nat} = {0, 1, 2}" by auto
  have e: "concat (map data chunks) ! j =
      [2, 4, 6] ! j - ((\<Sum>k<3. [2, 4, 6 :: real] ! k) - [2, 4, 6] ! j) / 2" if "j < 3" for j
    using r(3)[rule_format, of 0 j] that by simp
  have "concat (map data chunks) ! 0 = - 3" "concat (map data chunks) ! 1 = 0"
    "concat (map data chunks) ! 2 = 3"
    using e[of 0] e[of 1] e[of 2] by (simp_all add: s)
  then show ?thesis using r(1,2) by (intro exI[of _ experiences'] exI[of _ chunks]) simp
qed

subsection \<open>Configuration errors of the rollout driver\<close>

lemma mapE_length: "mapE f xs = Inr ys \<Longrightarrow> length ys = length xs"
  by (induction xs arbitrary: ys) (auto split: sum.splits)

lemma mapE_fails: "\<forall>x. \<exists>e. f x = Inl e \<Longrightarrow> xs \<noteq> [] \<Longrightarrow> \<exists>e. mapE f xs = Inl e"
proof (cases xs)
  case Nil
  assume "xs \<noteq> []"
  with Nil show ?thesis by simp
next
  case (Cons x xs')
  assume "\<forall>x. \<exists>e. f x = Inl e"
  then obtain e where "f x = Inl e" by blast
  then show ?thesis using Cons by simp
qed

lemma advantage_one_unknown:
  assumes "advantage_estimator args \<notin> {''gae'', ''reinforce'', ''rloo'', ''reinforce++'', ''group_norm''}"
  shows "\<exists>e. advantage_one env args kw x r = Inl e"
proof -
  have est: "estimate args kw y r' = Inl (Unknown_estimator (advantage_estimator args))" for y r'
    using assms by (simp add: estimate_def)
  show ?thesis
    using assms unfolding advantage_one_def bindE_def
    by (auto simp: est split: sum.splits option.splits)
qed

lemma advantage_one_assert:
  assumes "advantage_estimator args \<in> {''group_norm'', ''reinforce++''}"
    and "\<not> 1 < n_samples_per_prompt args"
  shows "\<exists>e. advantage_one env args kw x r = Inl e"
proof -
  have "group_norm_block args x r = Inl AssertionError"
    using assms(2) by (simp add: group_norm_block_def)
  then show ?thesis
    using assms(1) unfolding advantage_one_def bindE_def
    by (auto split: sum.splits)
qed

lemma flatten_dump_shape:
  "flatten_dump es = Inr es' \<Longrightarrow> es' \<noteq> [] \<and> length es' = length es"
  by (auto simp: flatten_dump_def bindE_def split: list.splits sum.splits)

lemma flatten_dump_Nil: "flatten_dump [] = Inl IndexError"
  by (simp add: flatten_dump_def)

lemma process_experiences_lengths:
  assumes "process_experiences args es = Inr (es', rs)"
    and "advantage_estimator args \<noteq> ''rloo''"
  shows "length rs = length es'"
proof (cases "advantage_estimator args = ''group_norm''")
  case True
  then show ?thesis using assms
    by (auto simp: process_experiences_def bindE_def split: sum.splits operand.splits)
next
  case False
  then show ?thesis using assms
    by (auto simp: process_experiences_def bindE_def split: sum.splits dest: mapE_length)
qed

lemma advantage_stage_fails:
  assumes one: "\<forall>x r. \<exists>e. advantage_one env args kw x r = Inl e"
    and est: "advantage_estimator args \<noteq> ''rloo''"
  shows "\<exists>e. advantage_stage env args kw es = Inl e"
proof (cases "process_experiences args es")
  case (Inl e)
  then show ?thesis by (simp add: advantage_stage_def bindE_def)
next
  case (Inr p)
  obtain es' rs where p: "p = (es', rs)" by (cases p)
  have l: "length rs = length es'"
    using Inr p est process_experiences_lengths by blast
  show ?thesis
  proof (cases "flatten_dump es'")
    case (Inl e)
    then show ?thesis using Inr p by (simp add: advantage_stage_def bindE_def)
  next
    case fd: (Inr es'')
    then have "es'' \<noteq> []" "length es'' = length es'" using flatten_dump_shape by blast+
    then have z: "zip es'' rs \<noteq> []" using l by (cases es''; cases rs) auto
    have "\<forall>xr. \<exists>e. (\<lambda>(experience, reward). advantage_one env args kw experience reward) xr = Inl e"
      using one by auto
    then obtain e where
      "mapE (\<lambda>(experience, reward). advantage_one env args kw experience reward) (zip es'' rs) = Inl e"
      using mapE_fails[OF _ z] by blast
    then show ?thesis using Inr p fd by (simp add: advantage_stage_def bindE_def)
  qed
qed

lemma advantage_stage_Nil:
  "advantage_stage env args kw [] = Inl e \<Longrightarrow> e \<in> {RuntimeError, AttributeError, IndexError}"
  by (auto simp: advantage_stage_def process_experiences_def bindE_def flatten_dump_def
      py_sum_def split: if_splits)

lemma collect_samples_events:
  "collect_samples env args p = (ev, r) \<Longrightarrow>
   (Generate \<in> set ev \<or> Broadcast_samples \<in> set ev) \<and> (\<forall>e. r = Inl e \<longrightarrow> e = Collaborator_failure)"
  by (auto simp: collect_samples_def split: option.splits if_splits)

lemma score_all_events:
  "score_all env ss = (ev, r) \<Longrightarrow>
   (\<forall>e. r = Inl e \<longrightarrow> e = Collaborator_failure) \<and> (ss = [] \<longrightarrow> r = Inr []) \<and>
   (ss \<noteq> [] \<longrightarrow> Make_experience (hd ss) \<in> set ev)"
  by (induction ss arbitrary: ev r) (auto split: option.splits prod.splits sum.splits)


lemma make_experience_list_stage:
  assumes "make_experience_list env args kw p = (ev, Inl e)"
    and "e \<noteq> Collaborator_failure"
  shows "(Generate \<in> set ev \<or> Broadcast_samples \<in> set ev) \<and>
         (\<exists>ss es. (ss \<noteq> [] \<longrightarrow> Make_experience (hd ss) \<in> set ev) \<and>
            (ss = [] \<longrightarrow> es = []) \<and> advantage_stage env args kw es = Inl e)"
proof -
  obtain ev1 r1 where c: "collect_samples env args p = (ev1, r1)" by (cases "collect_samples env args p")
  note ce = collect_samples_events[OF c]
  obtain ss where r1: "r1 = Inr ss"
    using assms c ce by (cases r1) (auto simp: make_experience_list_def)
  obtain ev3 r3 where sc: "score_all env ss = (ev3, r3)" by (cases "score_all env ss")
  note se = score_all_events[OF sc]
  let ?ev2 = "ev1 @ (if vllm_enable_sleep args then [Vllm_sleep] else []) @ [Barrier]"
  have res: "make_experience_list env args kw p =
      (case r3 of Inl e \<Rightarrow> (?ev2 @ ev3, Inl e)
       | Inr experiences \<Rightarrow> (?ev2 @ ev3, advantage_stage env args kw experiences))"
    using c r1 sc by (simp add: make_experience_list_def Let_def split: sum.splits)
  obtain es where r3: "r3 = Inr es"
    using assms res se by (cases r3) auto
  have ev: "ev = ?ev2 @ ev3" and st: "advantage_stage env args kw es = Inl e"
    using assms(1) res r3 by simp_all
  have "Generate \<in> set ev \<or> Broadcast_samples \<in> set ev" using ce ev by auto
  moreover have "ss \<noteq> [] \<longrightarrow> Make_experience (hd ss) \<in> set ev" using se ev by auto
  moreover have "ss = [] \<longrightarrow> es = []" using se r3 by simp
  ultimately show ?thesis using st by blast
qed


text \<open>
  Claim C6, as the code has it. An unknown estimator name is fatal, and so is a group
  size of 1 under \<^verbatim>\<open>group_norm\<close> and \<^verbatim>\<open>reinforce++\<close>: \<^verbatim>\<open>make_experience_list\<close> never
  returns experiences then. But the \<^verbatim>\<open>Exception\<close> and the failed assertion are raised in
  the loop over the scored experiences: by then the generation (or its broadcast) and at
  least one scoring have been issued.
\<close>

theorem config_errors_after_remote_work:
  "(advantage_estimator args \<notin> {''gae'', ''reinforce'', ''rloo'', ''reinforce++'', ''group_norm''} \<longrightarrow>
      (\<exists>e. snd (make_experience_list env args kw all_prompts) = Inl e)) \<and>
   (advantage_estimator args \<in> {''group_norm'', ''reinforce++''} \<and>
    \<not> 1 < n_samples_per_prompt args \<longrightarrow>
      (\<exists>e. snd (make_experience_list env args kw all_prompts) = Inl e)) \<and>
   (\<forall>ev e. make_experience_list env args kw all_prompts = (ev, Inl e) \<and>
      (e = AssertionError \<or> (\<exists>s. e = Unknown_estimator s)) \<longrightarrow>
      (Generate \<in> set ev \<or> Broadcast_samples \<in> set ev) \<and>
      (\<exists>samples. Make_experience samples \<in> set ev))"
proof (intro conjI impI allI)
  assume u: "advantage_estimator args \<notin> {''gae'', ''reinforce'', ''rloo'', ''reinforce++'', ''group_norm''}"
  then have "\<forall>x r. \<exists>e. advantage_one env args kw x r = Inl e"
    using advantage_one_unknown by blast
  moreover have "advantage_estimator args \<noteq> ''rloo''" using u by auto
  ultimately have "\<exists>e. advantage_stage env args kw es = Inl e" for es
    by (rule advantage_stage_fails)
  then show "\<exists>e. snd (make_experience_list env args kw all_prompts) = Inl e"
    unfolding make_experience_list_def Let_def
    by (auto split: prod.splits sum.splits)
next
  assume a: "advantage_estimator args \<in> {''group_norm'', ''reinforce++''} \<and>
    \<not> 1 < n_samples_per_prompt args"
  then have "\<forall>x r. \<exists>e. advantage_one env args kw x r = Inl e"
    using advantage_one_assert[of args] by blast
  moreover have "advantage_estimator args \<noteq> ''rloo''" using a by auto
  ultimately have "\<exists>e. advantage_stage env args kw es = Inl e" for es
    by (rule advantage_stage_fails)
  then show "\<exists>e. snd (make_experience_list env args kw all_prompts) = Inl e"
    unfolding make_experience_list_def Let_def
    by (auto split: prod.splits sum.splits)
next
  fix ev e
  assume a: "make_experience_list env args kw all_prompts = (ev, Inl e) \<and>
      (e = AssertionError \<or> (\<exists>s. e = Unknown_estimator s))"
  then have ne: "e \<noteq> Collaborator_failure" by auto
  from make_experience_list_stage[OF conjunct1[OF a] ne]
  obtain ss es where g: "Generate \<in> set ev \<or> Broadcast_samples \<in> set ev"
    and m: "ss \<noteq> [] \<longrightarrow> Make_experience (hd ss) \<in> set ev"
    and n: "ss = [] \<longrightarrow> es = []" and st: "advantage_stage env args kw es = Inl e"
    by blast
  have "es \<noteq> []" using st a advantage_stage_Nil[of env args kw e] by auto
  then have "ss \<noteq> []" using n by blast
  show "Generate \<in> set ev \<or> Broadcast_samples \<in> set ev" by (rule g)
  show "\<exists>samples. Make_experience samples \<in> set ev" using m \<open>ss \<noteq> []\<close> by blast
qed


text \<open>
  Against claim C6 as stated: one batch of samples, every collaborator answers. With the
  estimator name \<^verbatim>\<open>ppo\<close> the \<^verbatim>\<open>Exception\<close> comes after the generation and the scoring;
  with \<^verbatim>\<open>group_norm\<close> and one sample per prompt the assertion fails at the same place.
\<close>

theorem config_errors_counterexample:
  "make_experience_list
     \<lparr>generate_samples = (\<lambda>p. Some [0 :: nat]), received_samples = None,
        make_experience = (\<lambda>s. Some
          \<lparr>sequences = PNone, action_log_probs = PNone, values = PNone,
            returns = PNone, advantages = PNone, attention_mask = PNone, action_mask = PNone,
            info = [(''reward'', PTensor \<lparr>shape = [1, 2], data = [1, 0]\<rparr>),
                    (''num_actions'', PInt 2), (''dump/rewards'', PList [PList [PFloat 1]])],
            kl = PNone, ref_log_probs = PNone, visual_inputs = Some []\<rparr>),
        compute_reward = (\<lambda>r k m n. Some r)\<rparr>
     \<lparr>advantage_estimator = ''ppo'', n_samples_per_prompt = 2, vllm_enable_sleep = False,
        packing_samples = False, ring_attn_rank = None\<rparr> [] () =
   ([Generate, Barrier, Make_experience 0], Inl (Unknown_estimator ''ppo'')) \<and>
   make_experience_list
     \<lparr>generate_samples = (\<lambda>p. Some [0 :: nat]), received_samples = None,
        make_experience = (\<lambda>s. Some
          \<lparr>sequences = PNone, action_log_probs = PNone, values = PNone,
            returns = PNone, advantages = PNone, attention_mask = PNone, action_mask = PNone,
            info = [(''reward'', PTensor \<lparr>shape = [1, 2], data = [1, 0]\<rparr>),
                    (''num_actions'', PInt 2), (''dump/rewards'', PList [PList [PFloat 1]])],
            kl = PNone, ref_log_probs = PNone, visual_inputs = Some []\<rparr>),
        compute_reward = (\<lambda>r k m n. Some r)\<rparr>
     \<lparr>advantage_estimator = ''group_norm'', n_samples_per_prompt = 1, vllm_enable_sleep = False,
        packing_samples = False, ring_attn_rank = None\<rparr> [] () =
   ([Generate, Barrier, Make_experience 0], Inl AssertionError)"
  by (simp add: make_experience_list_def collect_samples_def advantage_stage_def
      process_experiences_def flatten_dump_def advantage_one_def estimate_def bindE_def
      info_get_def Let_def group_norm_block_def py_sum_def experience_radd_def)

theorem config_errors_after_remote_work_witness:
  "\<exists>ev e. make_experience_list
     \<lparr>generate_samples = (\<lambda>p. Some [0 :: nat]), received_samples = None,
        make_experience = (\<lambda>s. Some
          \<lparr>sequences = PNone, action_log_probs = PNone, values = PNone,
            returns = PNone, advantages = PNone, attention_mask = PNone, action_mask = PNone,
            info = [(''reward'', PTensor \<lparr>shape = [1, 2], data = [1, 0]\<rparr>),
                    (''num_actions'', PInt 2), (''dump/rewards'', PList [PList [PFloat 1]])],
            kl = PNone, ref_log_probs = PNone, visual_inputs = Some []\<rparr>),
        compute_reward = (\<lambda>r k m n. Some r)\<rparr>
     \<lparr>advantage_estimator = ''ppo'', n_samples_per_prompt = 2, vllm_enable_sleep = False,
        packing_samples = False, ring_attn_rank = None\<rparr> [] () = (ev, Inl e) \<and>
     e = Unknown_estimator ''ppo'' \<and>
     (Generate \<in> set ev \<or> Broadcast_samples \<in> set ev) \<and>
     (\<exists>samples. Make_experience samples \<in> set ev)"
proof -
  let ?env = "\<lparr>generate_samples = (\<lambda>p. Some [0 :: nat]), received_samples = None,
        make_experience = (\<lambda>s. Some
          \<lparr>sequences = PNone, action_log_probs = PNone, values = PNone,
            returns = PNone, advantages = PNone, attention_mask = PNone, action_mask = PNone,
            info = [(''reward'', PTensor \<lparr>shape = [1, 2], data = [1, 0]\<rparr>),
                    (''num_actions'', PInt 2), (''dump/rewards'', PList [PList [PFloat 1]])],
            kl = PNone, ref_log_probs = PNone, visual_inputs = Some []\<rparr>),
        compute_reward = (\<lambda>r k m n. Some r)\<rparr>"
  let ?args = "\<lparr>advantage_estimator = ''ppo'', n_samples_per_prompt = 2, vllm_enable_sleep = False,
        packing_samples = False, ring_attn_rank = None\<rparr>"
  have r: "make_experience_list ?env ?args [] () =
      ([Generate, Barrier, Make_experience 0], Inl (Unknown_estimator ''ppo''))"
    by (simp add: make_experience_list_def collect_samples_def advantage_stage_def
      process_experiences_def flatten_dump_def advantage_one_def estimate_def bindE_def
      info_get_def Let_def)
  note t = config_errors_after_remote_work[where env="?env" and args="?args" and kw="[]"
      and all_prompts="()"]
  have "(Generate \<in> set [Generate, Barrier, Make_experience (0 :: nat)] \<or>
         Broadcast_samples \<in> set [Generate, Barrier, Make_experience (0 :: nat)]) \<and>
        (\<exists>samples. Make_experience samples \<in> set [Generate, Barrier, Make_experience (0 :: nat)])"
    using t[THEN conjunct2, THEN conjunct2, rule_format,
        of "[Generate, Barrier, Make_experience 0]" "Unknown_estimator ''ppo''"] r
    by blast
  then show ?thesis using r by blast
qed

subsection \<open>Group-normalised reward shaping\<close>

















end
